theory Spec2Isabelle
  imports Main "HOL-Library.AList" "HOL-Library.Char_ord" "HOL-Library.List_Lexorder"
    "HOL-Library.Sublist"
begin

section \<open>Annual report link aggregator and downloader\<close>

text \<open>
  A shallow embedding of \<^verbatim>\<open>data/AnnualReport/annual_report.py\<close>.

  Conventions of the model.
  \<^item> A Python \<^verbatim>\<open>str\<close> is a \<^typ>\<open>string\<close> whose characters are the code points up to
    \<^verbatim>\<open>U+00FF\<close>; text with other code points is outside the model. \<^verbatim>\<open>isdigit\<close> and
    \<^verbatim>\<open>int\<close> are Python's on these strings. \<^verbatim>\<open>str.upper\<close> leaves this range (for
    \<^verbatim>\<open>U+00FF\<close> and \<^verbatim>\<open>U+00B5\<close>), so it is taken from the environment.
  \<^item> A Python \<^verbatim>\<open>dict\<close> that is only looked up and updated is a map; the dictionary
    that a scrape returns is iterated, so it is an association list in the order of the
    iteration.
  \<^item> An exception is the value \<open>Raise x\<close> of an outcome; a function with effects takes
    the world and returns it, also when it raises.
  \<^item> The world holds the JSON index file (as the dictionary it stores: \<^verbatim>\<open>json.dump\<close>
    followed by \<^verbatim>\<open>json.load\<close> is the identity on dictionaries of strings), the
    file tree with the working directory, the calls made on the logger, in order and
    with their level (the console shows the \<^verbatim>\<open>DEBUG\<close> ones only with \<^verbatim>\<open>--verbose\<close>),
    and the HTTP requests sent, in order. The file tree is a POSIX one without links,
    access rights or limits on names; it holds neither the JSON file nor the symbol
    file. What a download writes to the console is not part of the world.
  \<^item> Logging, reading and writing the JSON file, writing to an open file and writing
    to the console do not fail. What can raise is a request, reading the stream of a
    response, the parsers of the two headers, the arithmetic of the progress display and
    of the size in MiB, the calls on the file tree, and the three expressions of the
    program that the comments below name.
  \<^item> What the network answers, the lines of the symbol file, the system date, the library
    functions \<^verbatim>\<open>str.upper\<close>, \<^verbatim>\<open>int\<close> on a header and \<^verbatim>\<open>strptime\<close>, and what the
    arithmetic of the progress bar raises are given by an environment.
\<close>

subsection \<open>Exceptions, log records, HTTP\<close>

datatype exn =
    TypeError
  | ValueError
  | KeyError
  | OSError
  | OverflowError
  | MemoryError
  | RequestError string  \<comment> \<open>whatever \<^verbatim>\<open>requests\<close> raises: connection errors, an interrupt\<close>

datatype 'a outcome = Return 'a | Raise exn

datatype level = DEBUG | INFO | WARNING | ERROR

text \<open>
  One constructor for each format string the program passes to the logger, holding the
  values substituted into it.
\<close>

datatype msg =
    Reading_symbol_file           \<comment> \<open>\<^verbatim>\<open>Reading the file of NSE Symbols...\<close>\<close>
  | Symbol_file_not_found string  \<comment> \<open>\<^verbatim>\<open>Symbol file could not be found: {0}\<close>\<close>
  | Reading_json                  \<comment> \<open>\<^verbatim>\<open>Reading the JSON File containing links...\<close>\<close>
  | Writing_json                  \<comment> \<open>\<^verbatim>\<open>Writing fresh JSON File with latest links...\<close>\<close>
  | Scraping string               \<comment> \<open>\<^verbatim>\<open>Scraping links for: {symbol}\<close>\<close>
  | No_links_on_page string       \<comment> \<open>\<^verbatim>\<open>{symbol}: No links available.\<close>\<close>
  | Would_be_added string         \<comment> \<open>\<^verbatim>\<open>{symbol} would be added to the JSON File...\<close>\<close>
  | Added string string string    \<comment> \<open>\<^verbatim>\<open>" : ".join([symbol, year, "Added", link])\<close>\<close>
  | Modified string string string \<comment> \<open>\<^verbatim>\<open>" : ".join([symbol, year, "Modified", link])\<close>\<close>
  | Total_scraped nat             \<comment> \<open>\<^verbatim>\<open>Total symbols scraped: {0}\<close>\<close>
  | Total_added nat "string list" \<comment> \<open>\<^verbatim>\<open>Total links added: {0} {1}\<close>\<close>
  | Total_modified nat "string list"  \<comment> \<open>\<^verbatim>\<open>Total links modified: {0} {1}\<close>\<close>
  | Aggregation_finished          \<comment> \<open>\<^verbatim>\<open>Aggregation finished...\<close>\<close>
  | No_links string               \<comment> \<open>\<^verbatim>\<open>{symbol} : No links available\<close>\<close>
  | Renamed_to string string      \<comment> \<open>\<^verbatim>\<open>{0} renamed to {1}\<close>\<close>
  | Could_not_rename string       \<comment> \<open>\<^verbatim>\<open>{output_file} couldn't be renamed\<close>\<close>
  | Already_exists string string  \<comment> \<open>\<^verbatim>\<open>{symbol} : Already exists : {file_name}\<close>\<close>
  | Downloading string string     \<comment> \<open>\<^verbatim>\<open>{symbol} : Downloading : {url}\<close>\<close>
  | No_report string string       \<comment> \<open>\<^verbatim>\<open>{symbol} : No report available : {year}\<close>\<close>
  | Size_of string string int     \<comment> \<open>\<^verbatim>\<open>{symbol} : {url} : {length:.2f} MiB\<close>, in bytes\<close>
  | Total_size int                \<comment> \<open>\<^verbatim>\<open>Total estimated download size: {size:.2f} MiB\<close>, in bytes\<close>
  | Downloading_finished          \<comment> \<open>\<^verbatim>\<open>Downloading finished...\<close>\<close>
  | Could_not_download string     \<comment> \<open>\<^verbatim>\<open>Could not be downloaded: {url}\<close>\<close>
  | Downloaded string             \<comment> \<open>\<^verbatim>\<open>Downloaded: {url}\<close>\<close>

datatype http_method = GET | HEAD

text \<open>An anchor element of a parsed page: its visible text and its \<^verbatim>\<open>href\<close>, if any.\<close>

record anchor =
  anchor_text :: string
  anchor_href :: "string option"

text \<open>
  A response: \<^verbatim>\<open>r.ok\<close>, the two headers the program reads, the chunks that
  \<^verbatim>\<open>iter_content\<close> yields and the exception that ends the stream early, if one does,
  and the anchors \<^verbatim>\<open>BeautifulSoup(r.text).find_all("a")\<close> finds.
\<close>

record response =
  ok :: bool
  content_length :: "string option"
  last_modified :: "string option"
  chunks :: "string list"
  stream_error :: "exn option"
  anchors :: "anchor list"


text \<open>A node of the file tree: a directory, or a file with its content and the time
  \<^verbatim>\<open>os.utime\<close> gave it (\<open>None\<close>: the time the system gave it). A node is stored under
  its key, the names that lead to it from the root directory; the root directory has
  the empty key and is not stored.\<close>

datatype node = Dir | File string "int option"

type_synonym key = "string list"

type_synonym links = "string \<rightharpoonup> string"
type_synonym link_index = "string \<rightharpoonup> links"

record world =
  json_file :: "link_index option"
  tree :: "(key \<times> node) list"
  cwd :: key  \<comment> \<open>the directory the program runs in\<close>
  logged :: "(level \<times> msg) list"
  sent :: "(http_method \<times> string) list"

record env =
  symbol_lines :: "string \<Rightarrow> string list option"
    \<comment> \<open>\<^verbatim>\<open>f.read().splitlines()\<close> of a symbol file, \<open>None\<close> when it is not found\<close>
  this_year :: int
    \<comment> \<open>\<^verbatim>\<open>datetime.date.today().year\<close>\<close>
  respond :: "nat \<Rightarrow> http_method \<times> string \<Rightarrow> exn + response"
    \<comment> \<open>the answer to a request, given how many requests were sent before it\<close>
  upper :: "string \<Rightarrow> string"
    \<comment> \<open>\<^verbatim>\<open>s.upper()\<close>\<close>
  int_of_header :: "string \<Rightarrow> int option"
    \<comment> \<open>\<^verbatim>\<open>int(s)\<close> on a header value, \<open>None\<close> when it raises \<^verbatim>\<open>ValueError\<close>\<close>
  strptime_gmt :: "string \<Rightarrow> int option"
    \<comment> \<open>the timestamp of \<^verbatim>\<open>strptime(s, "%a, %d %b %Y %H:%M:%S GMT")\<close> read as UTC,
      \<open>None\<close> when it raises \<^verbatim>\<open>ValueError\<close>\<close>
  bar_error :: "int \<Rightarrow> nat \<Rightarrow> exn option"
    \<comment> \<open>what the arithmetic of the progress bar (lines 313 to 317) raises for this total
      length and this downloaded length: a quotient too large for a float, a bar too
      long for the memory; \<open>None\<close> when it raises nothing\<close>

definition logger :: "level \<Rightarrow> msg \<Rightarrow> world \<Rightarrow> world" where
  "logger l m w = w\<lparr>logged := logged w @ [(l, m)]\<rparr>"

definition request :: "env \<Rightarrow> http_method \<Rightarrow> string \<Rightarrow> world \<Rightarrow> response outcome \<times> world" where
  "request e m u w =
     (case respond e (length (sent w)) (m, u) of
        Inl x \<Rightarrow> (Raise x, w\<lparr>sent := sent w @ [(m, u)]\<rparr>)
      | Inr r \<Rightarrow> (Return r, w\<lparr>sent := sent w @ [(m, u)]\<rparr>))"

subsection \<open>Strings\<close>

text \<open>The characters up to \<^verbatim>\<open>U+00FF\<close> for which \<^verbatim>\<open>isdecimal\<close> holds are the digits 0 to
  9; \<^verbatim>\<open>isdigit\<close> holds for these and for the superscript digits two, three and one.\<close>

definition is_decimal :: "char \<Rightarrow> bool" where
  "is_decimal c \<longleftrightarrow> (48::nat) \<le> of_char c \<and> of_char c \<le> (57::nat)"

definition is_digit :: "char \<Rightarrow> bool" where
  "is_digit c \<longleftrightarrow> is_decimal c \<or> c = CHR 0xB2 \<or> c = CHR 0xB3 \<or> c = CHR 0xB9"

text \<open>\<^verbatim>\<open>s.isdigit()\<close>: false on the empty string.\<close>

definition isdigit :: "string \<Rightarrow> bool" where
  "isdigit s \<longleftrightarrow> s \<noteq> [] \<and> list_all is_digit s"

text \<open>The value of a string of decimal digits.\<close>

definition int_of_digits :: "string \<Rightarrow> int" where
  "int_of_digits s = foldl (\<lambda>a c. 10 * a + int (of_char c - (48::nat))) 0 s"

text \<open>\<^verbatim>\<open>int(s)\<close> on a string for which \<^verbatim>\<open>isdigit\<close> holds: it raises \<^verbatim>\<open>ValueError\<close>
  (\<open>None\<close>) when a character of it is a superscript digit.\<close>

definition int_of_text :: "string \<Rightarrow> int option" where
  "int_of_text s = (if list_all is_decimal s then Some (int_of_digits s) else None)"

definition digit_char :: "nat \<Rightarrow> char" where
  "digit_char d = ''0123456789'' ! d"

fun str_nat :: "nat \<Rightarrow> string" where
  "str_nat n =
     (if n < 10 then [digit_char n]
      else str_nat (n div 10) @ [digit_char (n mod 10)])"

declare str_nat.simps [simp del]

text \<open>\<^verbatim>\<open>str(i)\<close> of an integer.\<close>

definition str_int :: "int \<Rightarrow> string" where
  "str_int i = (if i < 0 then CHR ''-'' # str_nat (nat (- i)) else str_nat (nat i))"

text \<open>\<^verbatim>\<open>xs[offset:]\<close>: a negative offset counts from the end.\<close>

definition slice_from :: "int \<Rightarrow> 'a list \<Rightarrow> 'a list" where
  "slice_from offset xs =
     (if 0 \<le> offset then drop (nat offset) xs
      else drop (length xs - nat (- offset)) xs)"

subsection \<open>Symbol file and link index\<close>

definition read_symbol_file :: "env \<Rightarrow> string \<Rightarrow> world \<Rightarrow> string list \<times> world" where
  "read_symbol_file e symbol_file w =
     (let w1 = logger DEBUG Reading_symbol_file w in
      case symbol_lines e symbol_file of
        None \<Rightarrow> ([], logger ERROR (Symbol_file_not_found symbol_file) w1)
      | Some scrips \<Rightarrow> (filter (\<lambda>s. s \<noteq> []) scrips, w1))"

definition read_json :: "world \<Rightarrow> link_index \<times> world" where
  "read_json w =
     (let w1 = logger DEBUG Reading_json w in
      case json_file w1 of
        None \<Rightarrow> (Map.empty, w1)
      | Some annual_report_links \<Rightarrow> (annual_report_links, w1))"

definition write_json :: "link_index \<Rightarrow> world \<Rightarrow> world" where
  "write_json annual_report_links w =
     (logger DEBUG Writing_json w)\<lparr>json_file := Some annual_report_links\<rparr>"

subsection \<open>Link scraper\<close>

definition LINK_URL :: string where
  "LINK_URL = ''http://nseindia.com/corporates/shldInformation/shldinfo_annualReports.jsp?symbol=''"

definition REPORT_URL :: string where
  "REPORT_URL = ''http://nseindia.com''"

definition encode_special_characters :: "string \<Rightarrow> string" where
  "encode_special_characters symbol =
     concat (map (\<lambda>c. if c = CHR ''&'' then ''%26'' else [c]) symbol)"

text \<open>\<^verbatim>\<open>get_link_page_for\<close> with \<^verbatim>\<open>USE_TEST_DATA\<close> and \<^verbatim>\<open>WRITE_TEST_DATA\<close> false, as the
  file sets them. The status of the response is not looked at.\<close>

definition get_link_page_for :: "env \<Rightarrow> string \<Rightarrow> world \<Rightarrow> response outcome \<times> world" where
  "get_link_page_for e symbol w =
     request e GET (LINK_URL @ encode_special_characters symbol) w"

text \<open>The year label of an anchor text (lines 251 to 253); \<^verbatim>\<open>int(item.text)\<close> can
  raise \<^verbatim>\<open>ValueError\<close>.\<close>

definition year_label :: "string \<Rightarrow> string outcome" where
  "year_label t =
     (if length t = 4 \<and> isdigit t then
        (case int_of_text t of
           None \<Rightarrow> Raise ValueError
         | Some y \<Rightarrow> Return (t @ ''-'' @ str_int (y + 1)))
      else Return t)"

text \<open>The loop over the anchors: after the label is made, \<^verbatim>\<open>REPORT_URL + None\<close> raises
  \<^verbatim>\<open>TypeError\<close>; \<^verbatim>\<open>report_links[year] = link\<close> keeps the place of a key that is
  already there.\<close>

fun scrape_anchors :: "anchor list \<Rightarrow> (string \<times> string) list \<Rightarrow> (string \<times> string) list outcome" where
  "scrape_anchors [] report_links = Return report_links"
| "scrape_anchors (item # rest) report_links =
     (case year_label (anchor_text item) of
        Raise x \<Rightarrow> Raise x
      | Return year \<Rightarrow>
          (case anchor_href item of
             None \<Rightarrow> Raise TypeError
           | Some href \<Rightarrow>
               scrape_anchors rest (AList.update year (REPORT_URL @ href) report_links)))"


text \<open>\<^verbatim>\<open>scrape_links_for\<close> returns \<^verbatim>\<open>json.dumps({symbol: report_links}, sort_keys=True)\<close>,
  and its caller reads \<^verbatim>\<open>json.loads(symbol_json).get(symbol)\<close>: the dictionary with its
  keys in sorted order, which is what the model returns.\<close>

definition scrape_links_for ::
    "env \<Rightarrow> string \<Rightarrow> world \<Rightarrow> (string \<times> string) list outcome \<times> world" where
  "scrape_links_for e symbol w =
     (let w1 = logger INFO (Scraping symbol) w in
      case get_link_page_for e symbol w1 of
        (Raise x, w2) \<Rightarrow> (Raise x, w2)
      | (Return r, w2) \<Rightarrow>
          (let scrapped_links = anchors r;
               w3 = (if scrapped_links = []
                     then logger WARNING (No_links_on_page symbol) w2 else w2)
           in case scrape_anchors scrapped_links [] of
                Raise x \<Rightarrow> (Raise x, w3)
              | Return report_links \<Rightarrow> (Return (sort_key fst report_links), w3)))"

subsection \<open>Aggregator\<close>

definition get_latest_financial_year :: "env \<Rightarrow> string" where
  "get_latest_financial_year e = str_int (this_year e - 1) @ ''-'' @ str_int (this_year e)"

text \<open>The local variables of \<^verbatim>\<open>aggregate_links\<close> that the loop updates.\<close>

record agg_state =
  annual_report_links :: link_index
  symbols_scraped :: nat
  links_added :: nat
  links_modified :: nat
  links_added_for :: "string list"
  links_modified_for :: "string list"

text \<open>The body of the loop over the scraped years (lines 413 to 425).
  \<^verbatim>\<open>annual_report_links[symbol]\<close> raises \<^verbatim>\<open>KeyError\<close> when the symbol is missing.\<close>

definition merge_link ::
    "string \<Rightarrow> string \<Rightarrow> string \<Rightarrow> agg_state \<Rightarrow> world \<Rightarrow> unit outcome \<times> agg_state \<times> world" where
  "merge_link symbol year link st w =
     (case annual_report_links st symbol of
        None \<Rightarrow> (Raise KeyError, st, w)
      | Some years \<Rightarrow>
          (case years year of
             None \<Rightarrow>
               (Return (),
                st\<lparr>annual_report_links := (annual_report_links st)(symbol \<mapsto> years(year \<mapsto> link)),
                   links_added := links_added st + 1,
                   links_added_for := links_added_for st @ [symbol]\<rparr>,
                logger INFO (Added symbol year link) w)
           | Some old \<Rightarrow>
               if old \<noteq> link then
                 (Return (),
                  st\<lparr>annual_report_links := (annual_report_links st)(symbol \<mapsto> years(year \<mapsto> link)),
                     links_modified := links_modified st + 1,
                     links_modified_for := links_modified_for st @ [symbol]\<rparr>,
                  logger WARNING (Modified symbol year link) w)
               else (Return (), st, w)))"

fun merge_links ::
    "string \<Rightarrow> (string \<times> string) list \<Rightarrow> agg_state \<Rightarrow> world \<Rightarrow> unit outcome \<times> agg_state \<times> world" where
  "merge_links symbol [] st w = (Return (), st, w)"
| "merge_links symbol ((year, link) # rest) st w =
     (case merge_link symbol year link st w of
        (Raise x, st1, w1) \<Rightarrow> (Raise x, st1, w1)
      | (Return _, st1, w1) \<Rightarrow> merge_links symbol rest st1 w1)"

text \<open>The three cases of a scraped pair of a year and a link, read against the links of
  the symbol: the year is not there; it is there with another link; it is there with
  this link, when nothing is logged.\<close>

definition added_pair :: "links \<Rightarrow> string \<times> string \<Rightarrow> bool" where
  "added_pair years p \<longleftrightarrow> years (fst p) = None"

definition modified_pair :: "links \<Rightarrow> string \<times> string \<Rightarrow> bool" where
  "modified_pair years p \<longleftrightarrow> (case years (fst p) of None \<Rightarrow> False | Some old \<Rightarrow> old \<noteq> snd p)"

definition merge_log :: "string \<Rightarrow> links \<Rightarrow> string \<times> string \<Rightarrow> (level \<times> msg) list" where
  "merge_log symbol years p =
     (if added_pair years p then [(INFO, Added symbol (fst p) (snd p))]
      else if modified_pair years p then [(WARNING, Modified symbol (fst p) (snd p))]
      else [])"

text \<open>Python's truth value of \<^verbatim>\<open>d.get(k)\<close>: false when the key is missing and when the
  value is empty.\<close>

definition truthy_links :: "links option \<Rightarrow> bool" where
  "truthy_links v \<longleftrightarrow> (case v of None \<Rightarrow> False | Some years \<Rightarrow> years \<noteq> Map.empty)"

definition truthy_str :: "string option \<Rightarrow> bool" where
  "truthy_str v \<longleftrightarrow> (case v of None \<Rightarrow> False | Some s \<Rightarrow> s \<noteq> [])"

definition needs_scrape :: "bool \<Rightarrow> link_index \<Rightarrow> string \<Rightarrow> string \<Rightarrow> bool" where
  "needs_scrape force_update idx symbol latest_financial_year \<longleftrightarrow>
     force_update \<or> \<not> truthy_links (idx symbol) \<or>
     (case idx symbol of
        None \<Rightarrow> True
      | Some years \<Rightarrow> \<not> truthy_str (years latest_financial_year))"

text \<open>The body of the loop over the symbols (lines 402 to 425).\<close>

definition aggregate_symbol ::
    "env \<Rightarrow> bool \<Rightarrow> string \<Rightarrow> string \<Rightarrow> agg_state \<Rightarrow> world \<Rightarrow>
     unit outcome \<times> agg_state \<times> world" where
  "aggregate_symbol e force_update latest_financial_year symbol0 st w =
     (let symbol = upper e symbol0 in
      if needs_scrape force_update (annual_report_links st) symbol latest_financial_year then
        (case scrape_links_for e symbol w of
           (Raise x, w1) \<Rightarrow> (Raise x, st, w1)
         | (Return symbol_links, w1) \<Rightarrow>
             (let st1 = st\<lparr>symbols_scraped := symbols_scraped st + 1\<rparr> in
              if annual_report_links st1 symbol = None then
                merge_links symbol symbol_links
                  (st1\<lparr>annual_report_links := (annual_report_links st1)(symbol \<mapsto> Map.empty)\<rparr>)
                  (logger DEBUG (Would_be_added symbol) w1)
              else merge_links symbol symbol_links st1 w1))
      else (Return (), st, w))"

fun aggregate_loop ::
    "env \<Rightarrow> bool \<Rightarrow> string \<Rightarrow> string list \<Rightarrow> agg_state \<Rightarrow> world \<Rightarrow>
     unit outcome \<times> agg_state \<times> world" where
  "aggregate_loop e force_update fy [] st w = (Return (), st, w)"
| "aggregate_loop e force_update fy (symbol # rest) st w =
     (case aggregate_symbol e force_update fy symbol st w of
        (Raise x, st1, w1) \<Rightarrow> (Raise x, st1, w1)
      | (Return _, st1, w1) \<Rightarrow> aggregate_loop e force_update fy rest st1 w1)"

text \<open>The \<^verbatim>\<open>finally\<close> block (lines 429 to 434).\<close>

definition aggregate_finally :: "agg_state \<Rightarrow> world \<Rightarrow> world" where
  "aggregate_finally st w =
     logger INFO (Total_modified (links_modified st) (links_modified_for st))
       (logger INFO (Total_added (links_added st) (links_added_for st))
          (logger INFO (Total_scraped (symbols_scraped st))
             (write_json (annual_report_links st) w)))"

definition aggregate_init :: "link_index \<Rightarrow> agg_state" where
  "aggregate_init idx =
     \<lparr>annual_report_links = idx, symbols_scraped = 0, links_added = 0, links_modified = 0,
      links_added_for = [], links_modified_for = []\<rparr>"

definition aggregate_links :: "env \<Rightarrow> string \<Rightarrow> bool \<Rightarrow> int \<Rightarrow> world \<Rightarrow> unit outcome \<times> world" where
  "aggregate_links e symbol_file force_update offset w =
     (case read_json w of (idx, w1) \<Rightarrow>
     (case read_symbol_file e symbol_file w1 of (symbol_list, w2) \<Rightarrow>
     (case aggregate_loop e force_update (get_latest_financial_year e)
             (slice_from offset symbol_list) (aggregate_init idx) w2 of
        (Raise x, st, w3) \<Rightarrow> (Raise x, aggregate_finally st w3)
      | (Return _, st, w3) \<Rightarrow>
          (Return (), logger INFO Aggregation_finished (aggregate_finally st w3)))))"

subsection \<open>Paths\<close>

text \<open>
  \<^verbatim>\<open>os.path.basename\<close> keeps what follows the last slash; \<^verbatim>\<open>os.path.join\<close> of two
  parts returns the second when it is absolute and puts one slash between them
  otherwise.
\<close>

definition basename :: "string \<Rightarrow> string" where
  "basename p = rev (takeWhile (\<lambda>c. c \<noteq> CHR ''/'') (rev p))"

definition path_join :: "string \<Rightarrow> string \<Rightarrow> string" where
  "path_join a b =
     (if take 1 b = ''/'' then b
      else if a = [] \<or> last a = CHR ''/'' then a @ b
      else a @ ''/'' @ b)"

text \<open>\<^verbatim>\<open>s.split(sep)\<close> for a separator of one character. The result is never empty,
  so the first branch of the \<open>case\<close> is not taken.\<close>

fun split_on :: "char \<Rightarrow> string \<Rightarrow> string list" where
  "split_on sep [] = [] # []"
| "split_on sep (c # cs) =
     (if c = sep then [] # split_on sep cs
      else (case split_on sep cs of
              [] \<Rightarrow> [c] # []
            | x # xs \<Rightarrow> (c # x) # xs))"

text \<open>\<^verbatim>\<open>sep.join(xs)\<close>.\<close>

fun join_with :: "string \<Rightarrow> string list \<Rightarrow> string" where
  "join_with sep [] = []"
| "join_with sep [x] = x"
| "join_with sep (x # y # ys) = x @ sep @ join_with sep (y # ys)"

text \<open>\<^verbatim>\<open>xs[-4:]\<close>: the whole list when it has fewer than four elements.\<close>

definition last_four :: "'a list \<Rightarrow> 'a list" where
  "last_four xs = drop (length xs - 4) xs"

text \<open>Lines 289 to 291 of \<^verbatim>\<open>download_to_save\<close>.\<close>

definition output_file_name :: "string \<Rightarrow> string" where
  "output_file_name url = join_with ''_'' (last_four (split_on CHR ''_'' (basename url)))"

text \<open>Lines 487 to 490 of \<^verbatim>\<open>download_reports\<close>.\<close>

definition renamed_file_name :: "string \<Rightarrow> string" where
  "renamed_file_name url = join_with ''_'' (last_four (split_on CHR ''_'' (basename url)))"

subsection \<open>The file tree\<close>

definition fs :: "world \<Rightarrow> key \<rightharpoonup> node" where
  "fs w = map_of (tree w)"

definition node_of :: "world \<Rightarrow> key \<Rightarrow> node option" where
  "node_of w k = (if k = [] then Some Dir else fs w k)"

definition is_dir :: "world \<Rightarrow> key \<Rightarrow> bool" where
  "is_dir w k \<longleftrightarrow> node_of w k = Some Dir"

text \<open>Following the components of a path from a key: a component is looked up in a
  directory only; an empty component (between two slashes, after the last one) and
  \<^verbatim>\<open>.\<close> stay there, \<^verbatim>\<open>..\<close> goes up, and the root is above itself. The key reached need
  not be that of a node.\<close>

fun walk :: "world \<Rightarrow> key \<Rightarrow> string list \<Rightarrow> key option" where
  "walk w k [] = Some k"
| "walk w k (c # cs) =
     (if \<not> is_dir w k then None
      else if c = [] \<or> c = ''.'' then walk w k cs
      else if c = ''..'' then walk w (butlast k) cs
      else walk w (k @ [c]) cs)"

definition path_start :: "world \<Rightarrow> string \<Rightarrow> key" where
  "path_start w p = (if take 1 p = ''/'' then [] else cwd w)"

text \<open>The key a path leads to; none for the empty path and when the walk fails.\<close>

definition resolve :: "world \<Rightarrow> string \<Rightarrow> key option" where
  "resolve w p = (if p = [] then None else walk w (path_start w p) (split_on CHR ''/'' p))"

definition node_at :: "world \<Rightarrow> string \<Rightarrow> node option" where
  "node_at w p = (case resolve w p of None \<Rightarrow> None | Some k \<Rightarrow> node_of w k)"

text \<open>\<^verbatim>\<open>os.path.exists\<close>.\<close>

definition path_exists :: "world \<Rightarrow> string \<Rightarrow> bool" where
  "path_exists w p \<longleftrightarrow> node_at w p \<noteq> None"

text \<open>\<^verbatim>\<open>os.makedirs(name, exist_ok=True)\<close>: the directories on the way that are missing
  are made, one after the other; it raises when the name is empty, when a component is
  looked up in something that is not a directory, and when the path leads to a file.\<close>

fun mkdirs :: "key \<Rightarrow> string list \<Rightarrow> world \<Rightarrow> unit outcome \<times> world" where
  "mkdirs k [] w = (if is_dir w k then (Return (), w) else (Raise OSError, w))"
| "mkdirs k (c # cs) w =
     (if \<not> is_dir w k then (Raise OSError, w)
      else if c = [] \<or> c = ''.'' then mkdirs k cs w
      else if c = ''..'' then mkdirs (butlast k) cs w
      else if node_of w (k @ [c]) = None
        then mkdirs (k @ [c]) cs (w\<lparr>tree := tree w @ [(k @ [c], Dir)]\<rparr>)
      else mkdirs (k @ [c]) cs w)"

definition makedirs :: "string \<Rightarrow> world \<Rightarrow> unit outcome \<times> world" where
  "makedirs name w =
     (if name = [] then (Raise OSError, w)
      else mkdirs (path_start w name) (split_on CHR ''/'' name) w)"

text \<open>\<^verbatim>\<open>open(path, "wb")\<close>: the file is made, or emptied when it is there; it raises when
  the path leads nowhere or to a directory. The result is the key of the file, for the
  writes that follow.\<close>

definition open_wb :: "string \<Rightarrow> world \<Rightarrow> key outcome \<times> world" where
  "open_wb path w =
     (case resolve w path of
        None \<Rightarrow> (Raise OSError, w)
      | Some k \<Rightarrow>
          (case node_of w k of
             Some Dir \<Rightarrow> (Raise OSError, w)
           | _ \<Rightarrow> (Return k, w\<lparr>tree := AList.update k (File [] None) (tree w)\<rparr>)))"

definition write_file :: "key \<Rightarrow> string \<Rightarrow> world \<Rightarrow> world" where
  "write_file k content w = w\<lparr>tree := AList.update k (File content None) (tree w)\<rparr>"

text \<open>The entry that \<^verbatim>\<open>os.rename\<close> takes or makes for a path: slashes at the end are
  left out, and there is none when the last component is \<^verbatim>\<open>.\<close> or \<^verbatim>\<open>..\<close> and when
  nothing is left (the empty path, the root).\<close>

definition trim :: "string list \<Rightarrow> string list" where
  "trim cs = rev (dropWhile (\<lambda>c. c = []) (rev cs))"

definition path_entry :: "world \<Rightarrow> string \<Rightarrow> key option" where
  "path_entry w p =
     (let cs = trim (split_on CHR ''/'' p) in
      if cs = [] \<or> last cs = ''.'' \<or> last cs = ''..'' then None
      else walk w (path_start w p) cs)"

definition ends_with_slash :: "string \<Rightarrow> bool" where
  "ends_with_slash p \<longleftrightarrow> p \<noteq> [] \<and> last p = CHR ''/''"

definition dir_empty :: "world \<Rightarrow> key \<Rightarrow> bool" where
  "dir_empty w d \<longleftrightarrow> list_all (\<lambda>(k, n). \<not> strict_prefix d k) (tree w)"

definition move_tree :: "key \<Rightarrow> key \<Rightarrow> (key \<times> node) list \<Rightarrow> (key \<times> node) list" where
  "move_tree s d t =
     map (\<lambda>(k, n). if prefix s k then (d @ drop (length s) k, n) else (k, n)) (AList.delete d t)"

text \<open>\<^verbatim>\<open>os.rename\<close> and \<^verbatim>\<open>os.replace\<close>, which are the same call on POSIX. A file takes
  the place of a file and of nothing, not of a directory, and no path of the two may
  end with a slash. A directory moves with all that is below it, to the place of
  nothing or of an empty directory, not into itself. Renaming to the same entry does
  nothing. Every failure is an \<^verbatim>\<open>OSError\<close> and leaves the tree as it was.\<close>

definition os_rename :: "string \<Rightarrow> string \<Rightarrow> world \<Rightarrow> unit outcome \<times> world" where
  "os_rename src dst w =
     (case path_entry w src of
        None \<Rightarrow> (Raise OSError, w)
      | Some s \<Rightarrow>
     (case path_entry w dst of
        None \<Rightarrow> (Raise OSError, w)
      | Some d \<Rightarrow>
     (case node_of w s of
        None \<Rightarrow> (Raise OSError, w)
      | Some (File content time) \<Rightarrow>
          if ends_with_slash src \<or> ends_with_slash dst \<or> is_dir w d then (Raise OSError, w)
          else if s = d then (Return (), w)
          else (Return (),
                w\<lparr>tree := AList.update d (File content time) (AList.delete s (tree w))\<rparr>)
      | Some Dir \<Rightarrow>
          if s = d then (Return (), w)
          else if prefix s d then (Raise OSError, w)
          else
            (case node_of w d of
               Some (File _ _) \<Rightarrow> (Raise OSError, w)
             | Some Dir \<Rightarrow>
                 if dir_empty w d then (Return (), w\<lparr>tree := move_tree s d (tree w)\<rparr>)
                 else (Raise OSError, w)
             | None \<Rightarrow> (Return (), w\<lparr>tree := move_tree s d (tree w)\<rparr>)))))"

text \<open>\<^verbatim>\<open>os.utime\<close>; the model keeps no time for a directory.\<close>

definition utime :: "string \<Rightarrow> int \<Rightarrow> world \<Rightarrow> unit outcome \<times> world" where
  "utime path t w =
     (case resolve w path of
        None \<Rightarrow> (Raise OSError, w)
      | Some k \<Rightarrow>
          (case node_of w k of
             None \<Rightarrow> (Raise OSError, w)
           | Some Dir \<Rightarrow> (Return (), w)
           | Some (File content _) \<Rightarrow>
               (Return (), w\<lparr>tree := AList.update k (File content (Some t)) (tree w)\<rparr>)))"

subsection \<open>Downloader\<close>

definition apply_server_timestamp :: "env \<Rightarrow> string \<Rightarrow> string \<Rightarrow> world \<Rightarrow> unit outcome \<times> world" where
  "apply_server_timestamp e output_file lm w =
     (case strptime_gmt e lm of
        None \<Rightarrow> (Raise ValueError, w)
      | Some server_timestamp \<Rightarrow> utime output_file server_timestamp w)"

text \<open>\<^verbatim>\<open>int(r.headers.get("Content-Length", default=0))\<close>.\<close>

definition total_length :: "env \<Rightarrow> response \<Rightarrow> int option" where
  "total_length e r = (case content_length r of None \<Rightarrow> Some 0 | Some s \<Rightarrow> int_of_header e s)"

text \<open>\<^verbatim>\<open>n / (1024 * 1024)\<close> raises \<^verbatim>\<open>OverflowError\<close> when the quotient, rounded, is too
  large for a float.\<close>

definition mib_overflows :: "int \<Rightarrow> bool" where
  "mib_overflows n \<longleftrightarrow> 2 ^ 1044 - 2 ^ 990 \<le> \<bar>n\<bar>"

text \<open>What the progress display raises after a chunk (lines 312 to 321): with a total
  length, the arithmetic of the bar and then the total in MiB of line 318; without one,
  the downloaded length in MiB.\<close>

definition progress_error :: "env \<Rightarrow> int \<Rightarrow> nat \<Rightarrow> exn option" where
  "progress_error e total_len downloaded_length =
     (if total_len \<noteq> 0 then
        (case bar_error e total_len downloaded_length of
           Some x \<Rightarrow> Some x
         | None \<Rightarrow> if mib_overflows total_len then Some OverflowError else None)
      else if mib_overflows (int downloaded_length) then Some OverflowError else None)"

text \<open>The loop over \<^verbatim>\<open>r.iter_content\<close> (lines 309 to 321): a chunk is written, then
  the progress is shown. The result is what was written to the file, and the exception
  that ended the loop, if one did.\<close>

fun stream_chunks ::
    "env \<Rightarrow> int \<Rightarrow> string list \<Rightarrow> exn option \<Rightarrow> string \<Rightarrow> string \<times> exn option" where
  "stream_chunks e total_len [] err written = (written, err)"
| "stream_chunks e total_len (chunk # rest) err written =
     (case progress_error e total_len (length (written @ chunk)) of
        Some x \<Rightarrow> (written @ chunk, Some x)
      | None \<Rightarrow> stream_chunks e total_len rest err (written @ chunk))"

definition download_to_save :: "env \<Rightarrow> string \<Rightarrow> string \<Rightarrow> world \<Rightarrow> unit outcome \<times> world" where
  "download_to_save e url download_location w =
     (case makedirs download_location w of
        (Raise x, w1) \<Rightarrow> (Raise x, w1)
      | (Return _, w1) \<Rightarrow>
     (let output_file = path_join download_location (output_file_name url);
          download_file = path_join download_location (output_file_name url @ ''.downloading'')
      in
      case request e GET url w1 of
        (Raise x, w2) \<Rightarrow> (Raise x, w2)
      | (Return r, w2) \<Rightarrow>
          if \<not> ok r then (Return (), logger ERROR (Could_not_download url) w2)
          else
     (case total_length e r of
        None \<Rightarrow> (Raise ValueError, w2)
      | Some total_len \<Rightarrow>
     (case open_wb download_file w2 of
        (Raise x, w3) \<Rightarrow> (Raise x, w3)
      | (Return f, w3) \<Rightarrow>
     (case stream_chunks e total_len (chunks r) (stream_error r) [] of
        (written, Some x) \<Rightarrow> (Raise x, write_file f written w3)
      | (written, None) \<Rightarrow>
     (case os_rename download_file output_file (write_file f written w3) of
        (Raise x, w5) \<Rightarrow> (Raise x, w5)
      | (Return _, w5) \<Rightarrow>
          if truthy_str (last_modified r) then
            (case apply_server_timestamp e output_file (case last_modified r of None \<Rightarrow> [] | Some s \<Rightarrow> s) w5 of
               (Raise x, w6) \<Rightarrow> (Raise x, w6)
             | (Return _, w6) \<Rightarrow> (Return (), logger DEBUG (Downloaded url) w6))
          else (Return (), logger DEBUG (Downloaded url) w5)))))))"

text \<open>The size is returned and logged in MiB; the model keeps it in bytes.\<close>

definition get_download_size :: "env \<Rightarrow> string \<Rightarrow> string \<Rightarrow> world \<Rightarrow> int outcome \<times> world" where
  "get_download_size e url symbol w =
     (case request e HEAD url w of
        (Raise x, w1) \<Rightarrow> (Raise x, w1)
      | (Return r, w1) \<Rightarrow>
          (case total_length e r of
             None \<Rightarrow> (Raise ValueError, w1)
           | Some n \<Rightarrow>
               if mib_overflows n then (Raise OverflowError, w1)
               else (Return n, logger INFO (Size_of symbol url n) w1)))"

text \<open>The branch of \<^verbatim>\<open>download_reports\<close> taken with \<^verbatim>\<open>rename_existing\<close> (lines 493 to
  502): an \<^verbatim>\<open>OSError\<close> of the rename is caught and logged.\<close>

definition rename_existing_file ::
    "bool \<Rightarrow> string \<Rightarrow> string \<Rightarrow> string \<Rightarrow> world \<Rightarrow> world" where
  "rename_existing_file simulate download_location file_name renamed w =
     (let output_file = path_join download_location file_name;
          renamed_file = path_join download_location renamed
      in
      if path_exists w output_file then
        (let w1 = logger INFO (Renamed_to file_name renamed) w in
         if \<not> simulate then
           (case os_rename output_file renamed_file w1 of
              (Raise _, w2) \<Rightarrow> logger WARNING (Could_not_rename output_file) w2
            | (Return _, w2) \<Rightarrow> w2)
         else w1)
      else w)"

text \<open>The body of the loop of \<^verbatim>\<open>download_reports\<close> (lines 480 to 519); the running
  total of the sizes is kept in bytes.\<close>

definition download_symbol ::
    "env \<Rightarrow> link_index \<Rightarrow> string \<Rightarrow> string \<Rightarrow> bool \<Rightarrow> bool \<Rightarrow> bool \<Rightarrow> string \<Rightarrow>
     int \<Rightarrow> world \<Rightarrow> unit outcome \<times> int \<times> world" where
  "download_symbol e idx financial_year download_location simulate show_download_size_only
       rename_existing symbol0 total_size w =
     (let symbol = upper e symbol0 in
      case idx symbol of
        None \<Rightarrow> (Return (), total_size, logger WARNING (No_links symbol) w)
      | Some years \<Rightarrow>
          if years = Map.empty then (Return (), total_size, logger WARNING (No_links symbol) w)
          else
     (case years financial_year of
        None \<Rightarrow> (Return (), total_size, logger DEBUG (No_report symbol financial_year) w)
      | Some url \<Rightarrow>
          if url = [] then (Return (), total_size, logger DEBUG (No_report symbol financial_year) w)
          else
     (let file_name = basename url;
          output_file = path_join download_location file_name;
          renamed_file = path_join download_location (renamed_file_name url)
      in
      if rename_existing then
        (Return (), total_size,
         rename_existing_file simulate download_location file_name (renamed_file_name url) w)
      else
     (let existing_file = (if path_exists w renamed_file then renamed_file_name url else file_name)
      in
      if path_exists w output_file \<or> path_exists w renamed_file then
        (Return (), total_size, logger DEBUG (Already_exists symbol existing_file) w)
      else if show_download_size_only then
        (case get_download_size e url symbol w of
           (Raise x, w1) \<Rightarrow> (Raise x, total_size, w1)
         | (Return n, w1) \<Rightarrow> (Return (), total_size + n, w1))
      else
        (let w1 = logger INFO (Downloading symbol url) w in
         if \<not> simulate then
           (case download_to_save e url download_location w1 of
              (r, w2) \<Rightarrow> (r, total_size, w2))
         else (Return (), total_size, w1))))))"

fun download_loop ::
    "env \<Rightarrow> link_index \<Rightarrow> string \<Rightarrow> string \<Rightarrow> bool \<Rightarrow> bool \<Rightarrow> bool \<Rightarrow> string list \<Rightarrow>
     int \<Rightarrow> world \<Rightarrow> unit outcome \<times> int \<times> world" where
  "download_loop e idx fy loc simulate size_only rename_existing [] total_size w =
     (Return (), total_size, w)"
| "download_loop e idx fy loc simulate size_only rename_existing (symbol # rest) total_size w =
     (case download_symbol e idx fy loc simulate size_only rename_existing symbol total_size w of
        (Raise x, total1, w1) \<Rightarrow> (Raise x, total1, w1)
      | (Return _, total1, w1) \<Rightarrow>
          download_loop e idx fy loc simulate size_only rename_existing rest total1 w1)"

definition download_reports ::
    "env \<Rightarrow> string \<Rightarrow> string \<Rightarrow> string \<Rightarrow> bool \<Rightarrow> bool \<Rightarrow> bool \<Rightarrow> int \<Rightarrow> world \<Rightarrow>
     unit outcome \<times> world" where
  "download_reports e symbol_file financial_year base_download_folder simulate
       show_download_size_only rename_existing offset w =
     (let download_location = path_join base_download_folder financial_year in
      case read_json w of (idx, w1) \<Rightarrow>
     (case read_symbol_file e symbol_file w1 of (symbol_list, w2) \<Rightarrow>
     (case download_loop e idx financial_year download_location simulate
             show_download_size_only rename_existing (slice_from offset symbol_list) 0 w2 of
        (Raise x, total_size, w3) \<Rightarrow> (Raise x, w3)
      | (Return _, total_size, w3) \<Rightarrow>
          (Return (),
           logger INFO Downloading_finished
             (if show_download_size_only then logger INFO (Total_size total_size) w3 else w3)))))"

subsection \<open>Example inputs\<close>

text \<open>An environment of the year 2024 whose symbol file \<^verbatim>\<open>download_symbols.txt\<close> has
  the given lines and whose network answers as given, and a world with an empty log in
  which nothing was sent.\<close>


definition ascii_upper_char :: "char \<Rightarrow> char" where
  "ascii_upper_char c =
     (case map_of (zip ''abcdefghijklmnopqrstuvwxyz'' ''ABCDEFGHIJKLMNOPQRSTUVWXYZ'') c of
        None \<Rightarrow> c
      | Some u \<Rightarrow> u)"

text \<open>The texts of the examples are ASCII, on which \<^verbatim>\<open>str.upper\<close> maps the letters a to
  z; their two \<^verbatim>\<open>Content-Length\<close> headers are 3 and 1 followed by 400 zeros; no download
  of the examples is longer than its total length, so that the arithmetic of the bar
  raises nothing.\<close>

definition ex_env :: "string list \<Rightarrow> (nat \<Rightarrow> http_method \<times> string \<Rightarrow> exn + response) \<Rightarrow> env" where
  "ex_env scrips answer =
     \<lparr>symbol_lines = (\<lambda>f. if f = ''download_symbols.txt'' then Some scrips else None),
      this_year = 2024,
      respond = answer,
      upper = map ascii_upper_char,
      int_of_header = (\<lambda>s. if s = ''3'' then Some 3
                            else if s = CHR ''1'' # replicate 400 (CHR ''0'') then Some (10 ^ 400)
                            else None),
      strptime_gmt = (\<lambda>s. if s = ''Thu, 01 Jan 1970 00:00:10 GMT'' then Some 10 else None),
      bar_error = (\<lambda>total_len downloaded_length. None)\<rparr>"

definition ex_world :: "link_index option \<Rightarrow> (key \<times> node) list \<Rightarrow> world" where
  "ex_world j t = \<lparr>json_file = j, tree = t, cwd = [], logged = [], sent = []\<rparr>"

definition ex_page :: "anchor list \<Rightarrow> response" where
  "ex_page items =
     \<lparr>ok = True, content_length = None, last_modified = None, chunks = [],
      stream_error = None, anchors = items\<rparr>"

definition ex_report :: "bool \<Rightarrow> string option \<Rightarrow> string list \<Rightarrow> exn option \<Rightarrow> response" where
  "ex_report status lm body_chunks err =
     \<lparr>ok = status, content_length = Some ''3'', last_modified = lm, chunks = body_chunks,
      stream_error = err, anchors = []\<rparr>"

definition ex_index :: link_index where
  "ex_index = [''TCS'' \<mapsto> [''2023-2024'' \<mapsto> ''http://nseindia.com/a/AR_1_TCS_2023_2024.pdf'']]"

definition ex_anchor :: "string \<Rightarrow> string option \<Rightarrow> anchor" where
  "ex_anchor t h = \<lparr>anchor_text = t, anchor_href = h\<rparr>"

section \<open>Properties\<close>

subsection \<open>Unfolding the model on concrete inputs\<close>

lemmas ex_defs = ex_env_def ex_world_def ex_page_def ex_anchor_def ex_report_def ex_index_def
  ascii_upper_char_def

lemmas string_defs = year_label_def isdigit_def is_digit_def is_decimal_def int_of_text_def
  int_of_digits_def str_int_def str_nat.simps digit_char_def slice_from_def
  encode_special_characters_def LINK_URL_def REPORT_URL_def get_latest_financial_year_def

lemmas aggregate_defs = aggregate_links_def read_json_def read_symbol_file_def logger_def
  aggregate_init_def aggregate_symbol_def needs_scrape_def truthy_links_def truthy_str_def
  scrape_links_for_def get_link_page_for_def request_def merge_link_def aggregate_finally_def
  write_json_def Let_def

lemmas tree_defs = fs_def node_of_def is_dir_def resolve_def path_start_def node_at_def
  path_exists_def makedirs_def open_wb_def write_file_def trim_def path_entry_def
  ends_with_slash_def dir_empty_def move_tree_def os_rename_def utime_def

lemmas download_defs = download_reports_def download_symbol_def download_to_save_def
  rename_existing_file_def get_download_size_def total_length_def apply_server_timestamp_def
  progress_error_def mib_overflows_def path_join_def
  basename_def output_file_name_def renamed_file_name_def last_four_def request_def logger_def
  read_json_def read_symbol_file_def slice_from_def truthy_str_def Let_def

subsection \<open>Decimal numerals\<close>

lemma digit_char_is_decimal: "d < 10 \<Longrightarrow> is_decimal (digit_char d)"
proof -
  assume "d < 10"
  then have "d \<in> {0,1,2,3,4,5,6,7,8,9}" by auto
  then show ?thesis by (auto simp: is_decimal_def digit_char_def)
qed

lemma digit_char_val: "d < 10 \<Longrightarrow> of_char (digit_char d) - (48::nat) = d"
proof -
  assume "d < 10"
  then have "d \<in> {0,1,2,3,4,5,6,7,8,9}" by auto
  then show ?thesis by (auto simp: digit_char_def)
qed

lemma str_nat_digits: "list_all is_decimal (str_nat n)"
proof (induction n rule: str_nat.induct)
  case (1 n)
  show ?case
  proof (cases "n < 10")
    case True
    then show ?thesis by (subst str_nat.simps) (simp add: digit_char_is_decimal)
  next
    case False
    with 1 show ?thesis by (subst str_nat.simps) (simp add: digit_char_is_decimal)
  qed
qed

lemma str_nat_nonempty: "str_nat n \<noteq> []"
  by (subst str_nat.simps) simp

lemma int_of_digits_snoc: "int_of_digits (s @ [c]) = 10 * int_of_digits s + int (of_char c - (48::nat))"
  by (simp add: int_of_digits_def)

lemma int_of_digits_str_nat: "int_of_digits (str_nat n) = int n"
proof (induction n rule: str_nat.induct)
  case (1 n)
  show ?case
  proof (cases "n < 10")
    case True
    then show ?thesis by (subst str_nat.simps) (simp add: int_of_digits_def digit_char_val)
  next
    case False
    with 1 have "int_of_digits (str_nat (n div 10)) = int (n div 10)" by simp
    moreover have "10 * int (n div 10) + int (n mod 10) = int n" by presburger
    ultimately show ?thesis using False
      by (subst str_nat.simps) (simp add: int_of_digits_snoc digit_char_val)
  qed
qed

lemma length_str_nat_4: "1000 \<le> n \<Longrightarrow> n < 10000 \<Longrightarrow> length (str_nat n) = 4"
proof -
  assume a: "1000 \<le> n" "n < 10000"
  have 1: "str_nat n = str_nat (n div 10) @ [digit_char (n mod 10)]"
    using a by (subst str_nat.simps) simp
  have 2: "str_nat (n div 10) = str_nat (n div 10 div 10) @ [digit_char (n div 10 mod 10)]"
    using a by (subst str_nat.simps) simp
  have 3: "str_nat (n div 10 div 10) = str_nat (n div 10 div 10 div 10) @ [digit_char (n div 10 div 10 mod 10)]"
    using a by (subst str_nat.simps) simp
  have 4: "str_nat (n div 10 div 10 div 10) = [digit_char (n div 10 div 10 div 10)]"
    using a by (subst str_nat.simps) simp
  show ?thesis by (simp add: 1 2 3 4)
qed

lemma decimal_is_digit: "list_all is_decimal t \<Longrightarrow> list_all is_digit t"
  by (induction t) (simp_all add: is_digit_def)

subsection \<open>The year label\<close>

lemma year_label_decimal:
  assumes "length t = 4" and "list_all is_decimal t"
  shows "year_label t = Return (t @ ''-'' @ str_int (int_of_digits t + 1))"
proof -
  from assms(1) have "t \<noteq> []" by auto
  with assms decimal_is_digit [OF assms(2)] show ?thesis
    by (simp add: year_label_def isdigit_def int_of_text_def)
qed

lemma year_label_str_nat:
  assumes "1000 \<le> n" "n < 10000"
  shows "year_label (str_nat n) = Return (str_nat n @ ''-'' @ str_nat (n + 1))"
proof -
  have "nat (int n + 1) = n + 1" by simp
  then show ?thesis using assms
    by (simp add: year_label_decimal length_str_nat_4 str_nat_digits int_of_digits_str_nat
        str_int_def)
qed

lemma year_label_verbatim: "\<not> (length t = 4 \<and> isdigit t) \<Longrightarrow> year_label t = Return t"
  by (auto simp: year_label_def)

lemma year_label_Raise:
  "year_label t = Raise x \<longleftrightarrow>
     x = ValueError \<and> length t = 4 \<and> isdigit t \<and> \<not> list_all is_decimal t"
  by (auto simp: year_label_def int_of_text_def)

lemma year_label_cases:
  "year_label t = Raise ValueError \<or>
   year_label t = Return t \<or>
   year_label t = Return (t @ ''-'' @ str_int (int_of_digits t + 1))"
  by (auto simp: year_label_def int_of_text_def)

subsection \<open>The scraper\<close>

lemma scrape_anchors_Return_iff:
  "(\<exists>report_links. scrape_anchors items acc = Return report_links) \<longleftrightarrow>
     list_all (\<lambda>a. anchor_href a \<noteq> None \<and> (\<exists>y. year_label (anchor_text a) = Return y)) items"
  by (induction items arbitrary: acc) (auto split: outcome.splits option.splits)

lemma scrape_anchors_stops:
  assumes "\<forall>b \<in> set before. anchor_href b \<noteq> None \<and> (\<exists>y. year_label (anchor_text b) = Return y)"
  shows "scrape_anchors (before @ item # after) acc =
     (case year_label (anchor_text item) of
        Raise x \<Rightarrow> Raise x
      | Return y \<Rightarrow>
          (case anchor_href item of
             None \<Rightarrow> Raise TypeError
           | Some href \<Rightarrow> scrape_anchors after (AList.update y (REPORT_URL @ href)
               (case scrape_anchors before acc of Return l \<Rightarrow> l | Raise x \<Rightarrow> []))))"
  using assms
  by (induction before arbitrary: acc) (auto split: outcome.splits option.splits)

lemma scrape_anchors_Raise:
  assumes "scrape_anchors items acc = Raise x"
  shows "(x = TypeError \<and> (\<exists>a \<in> set items. anchor_href a = None)) \<or>
         (x = ValueError \<and> (\<exists>a \<in> set items. year_label (anchor_text a) = Raise ValueError))"
  using assms
  by (induction items arbitrary: acc)
    (auto simp: year_label_Raise split: outcome.splits option.splits)

lemma scrape_anchors_missing_href:
  "\<exists>a \<in> set items. anchor_href a = None \<Longrightarrow> \<exists>x. scrape_anchors items acc = Raise x"
  by (induction items arbitrary: acc) (auto split: outcome.splits option.splits)

lemma scrape_anchors_frame:
  assumes "scrape_anchors items acc = Return report_links"
    and "\<forall>a \<in> set items. year_label (anchor_text a) \<noteq> Return y"
  shows "map_of report_links y = map_of acc y"
  using assms
  by (induction items arbitrary: acc)
    (auto simp: update_conv' split: outcome.splits option.splits)

lemma scrape_anchors_distinct:
  assumes "scrape_anchors items acc = Return report_links" and "distinct (map fst acc)"
  shows "distinct (map fst report_links)"
  using assms
  by (induction items arbitrary: acc)
    (auto simp: distinct_update split: outcome.splits option.splits)

lemma scrape_anchors_stored:
  assumes "scrape_anchors (before @ item # after) acc = Return report_links"
    and "\<forall>a \<in> set after. year_label (anchor_text a) \<noteq> year_label (anchor_text item)"
  shows "\<exists>year href. year_label (anchor_text item) = Return year \<and>
           anchor_href item = Some href \<and> map_of report_links year = Some (REPORT_URL @ href)"
  using assms
proof (induction before arbitrary: acc)
  case Nil
  from Nil.prems(1) obtain year href where y: "year_label (anchor_text item) = Return year"
    and h: "anchor_href item = Some href"
    by (auto split: outcome.splits option.splits)
  with Nil.prems(1) have
    "scrape_anchors after (AList.update year (REPORT_URL @ href) acc) = Return report_links"
    by simp
  moreover from Nil.prems(2) y have "\<forall>a \<in> set after. year_label (anchor_text a) \<noteq> Return year"
    by simp
  ultimately have "map_of report_links year =
      map_of (AList.update year (REPORT_URL @ href) acc) year"
    by (rule scrape_anchors_frame)
  with y h show ?case by (simp add: update_conv')
next
  case (Cons b before)
  from Cons.prems(1) obtain yb hb where "year_label (anchor_text b) = Return yb"
    and "anchor_href b = Some hb"
    by (auto split: outcome.splits option.splits)
  with Cons.prems(1) have
    "scrape_anchors (before @ item # after) (AList.update yb (REPORT_URL @ hb) acc)
       = Return report_links"
    by simp
  from Cons.IH [OF this Cons.prems(2)] show ?case .
qed

lemma map_of_sort_key_fst:
  assumes "distinct (map fst xs)"
  shows "map_of (sort_key fst xs) = map_of xs"
proof -
  from assms have d: "distinct xs" and i: "inj_on fst (set xs)"
    by (simp_all add: distinct_map)
  then have "distinct (map fst (sort_key fst xs))"
    by (simp add: distinct_map)
  with assms show ?thesis
    by (simp add: map_of_inject_set)
qed

lemma scrape_links_for_cases:
  assumes "respond e (length (sent w)) (GET, LINK_URL @ encode_special_characters symbol) = Inr r"
  shows "scrape_links_for e symbol w =
     (case scrape_anchors (anchors r) [] of
        Raise x \<Rightarrow> Raise x
      | Return report_links \<Rightarrow> Return (sort_key fst report_links),
      w\<lparr>logged := logged w @ (INFO, Scraping symbol) #
             (if anchors r = [] then [(WARNING, No_links_on_page symbol)] else []),
         sent := sent w @ [(GET, LINK_URL @ encode_special_characters symbol)]\<rparr>)"
  using assms
  by (simp add: scrape_links_for_def get_link_page_for_def request_def logger_def Let_def
      split: outcome.splits)

text \<open>The years of a scraped dictionary are distinct.\<close>

lemma scrape_links_for_distinct:
  assumes "scrape_links_for e symbol w = (Return pairs, w1)"
  shows "distinct (map fst pairs)"
proof -
  from assms obtain items links where s: "scrape_anchors items [] = Return links"
    and p: "pairs = sort_key fst links"
    by (auto simp: scrape_links_for_def Let_def split: prod.splits outcome.splits)
  from scrape_anchors_distinct [OF s] have "distinct (map fst links)" by simp
  then have "distinct links" and "inj_on fst (set links)" by (simp_all add: distinct_map)
  with p show ?thesis by (simp add: distinct_map)
qed

text \<open>
  Claim C4. The year label of an anchor text of four decimal digits is the text, a hyphen
  and the decimal numeral of the number plus one (so the text of a year \<open>n\<close> from 1000
  to 9999 gives the numerals of \<open>n\<close> and \<open>n + 1\<close>, as \<^verbatim>\<open>2023\<close> gives \<^verbatim>\<open>2023-2024\<close>); a
  text that is not of four digit characters is its own label. A text of four digit
  characters with a superscript digit among them has no label: \<^verbatim>\<open>isdigit\<close> holds of it,
  \<^verbatim>\<open>int\<close> raises \<^verbatim>\<open>ValueError\<close> on it, and the page that has it cannot be scraped,
  where the claim wants the text kept. When a page is scraped, the link of each anchor is
  stored in the scraped dictionary under the label of the anchor, unless a later anchor
  of the page has the same label.
\<close>

theorem year_label_of_anchor:
  "(length t = 4 \<and> list_all is_decimal t \<longrightarrow>
      year_label t = Return (t @ ''-'' @ str_int (int_of_digits t + 1))) \<and>
   (1000 \<le> n \<and> n < 10000 \<longrightarrow>
      year_label (str_nat n) = Return (str_nat n @ ''-'' @ str_nat (n + 1))) \<and>
   (\<not> (length t = 4 \<and> isdigit t) \<longrightarrow> year_label t = Return t) \<and>
   (length t = 4 \<and> isdigit t \<and> \<not> list_all is_decimal t \<longrightarrow> year_label t = Raise ValueError) \<and>
   (respond e (length (sent w)) (GET, LINK_URL @ encode_special_characters symbol) = Inr r \<and>
    anchors r = before @ item # after \<and>
    (\<forall>a \<in> set after. year_label (anchor_text a) \<noteq> year_label (anchor_text item)) \<and>
    scrape_links_for e symbol w = (Return report_links, w1) \<longrightarrow>
      (\<exists>year href. year_label (anchor_text item) = Return year \<and> anchor_href item = Some href \<and>
         map_of report_links year = Some (REPORT_URL @ href))) \<and>
   (respond e (length (sent w)) (GET, LINK_URL @ encode_special_characters symbol) = Inr r \<and>
    (\<exists>a \<in> set (anchors r). year_label (anchor_text a) = Raise ValueError) \<longrightarrow>
      (\<exists>x. fst (scrape_links_for e symbol w) = Raise x))"
proof (intro conjI impI)
  assume "length t = 4 \<and> list_all is_decimal t"
  then show "year_label t = Return (t @ ''-'' @ str_int (int_of_digits t + 1))"
    by (simp add: year_label_decimal)
next
  assume "1000 \<le> n \<and> n < 10000"
  then show "year_label (str_nat n) = Return (str_nat n @ ''-'' @ str_nat (n + 1))"
    by (simp add: year_label_str_nat)
next
  assume "\<not> (length t = 4 \<and> isdigit t)"
  then show "year_label t = Return t"
    by (rule year_label_verbatim)
next
  assume "length t = 4 \<and> isdigit t \<and> \<not> list_all is_decimal t"
  then show "year_label t = Raise ValueError"
    by (simp add: year_label_Raise)
next
  assume a: "respond e (length (sent w)) (GET, LINK_URL @ encode_special_characters symbol) = Inr r \<and>
    anchors r = before @ item # after \<and>
    (\<forall>a \<in> set after. year_label (anchor_text a) \<noteq> year_label (anchor_text item)) \<and>
    scrape_links_for e symbol w = (Return report_links, w1)"
  then obtain links where l: "scrape_anchors (before @ item # after) [] = Return links"
    and s: "report_links = sort_key fst links"
    by (auto simp: scrape_links_for_cases split: outcome.splits)
  from scrape_anchors_distinct [OF l] have "distinct (map fst links)" by simp
  then have "map_of report_links = map_of links"
    using s by (simp add: map_of_sort_key_fst)
  moreover from a have
    "\<forall>a \<in> set after. year_label (anchor_text a) \<noteq> year_label (anchor_text item)" by simp
  from scrape_anchors_stored [OF l this]
  have "\<exists>year href. year_label (anchor_text item) = Return year \<and> anchor_href item = Some href \<and>
           map_of links year = Some (REPORT_URL @ href)" .
  ultimately show "\<exists>year href. year_label (anchor_text item) = Return year \<and>
         anchor_href item = Some href \<and> map_of report_links year = Some (REPORT_URL @ href)"
    by simp
next
  assume a: "respond e (length (sent w)) (GET, LINK_URL @ encode_special_characters symbol) = Inr r \<and>
    (\<exists>a \<in> set (anchors r). year_label (anchor_text a) = Raise ValueError)"
  then obtain a where "a \<in> set (anchors r)" and "year_label (anchor_text a) = Raise ValueError"
    by auto
  then have "\<not> list_all (\<lambda>a. anchor_href a \<noteq> None \<and> (\<exists>y. year_label (anchor_text a) = Return y))
      (anchors r)"
    unfolding list_all_iff by (intro notI) (drule bspec, assumption, simp)
  then have "\<not> (\<exists>l. scrape_anchors (anchors r) [] = Return l)"
    by (simp add: scrape_anchors_Return_iff)
  then obtain x where "scrape_anchors (anchors r) [] = Raise x"
    by (cases "scrape_anchors (anchors r) []") auto
  with a show "\<exists>x. fst (scrape_links_for e symbol w) = Raise x"
    by (simp add: scrape_links_for_cases)
qed

text \<open>
  A page with the anchors \<^verbatim>\<open>2023\<close> and \<^verbatim>\<open>Archive\<close>, and a page with one anchor whose text
  is the four superscript digits \<^verbatim>\<open>U+00B2 U+00B3 U+00B9 U+00B2\<close>.
\<close>

theorem year_label_of_anchor_witness:
  "scrape_links_for
     (ex_env [] (\<lambda>n q. Inr (ex_page [ex_anchor ''2023'' (Some ''/r.pdf''),
                                       ex_anchor ''Archive'' (Some ''/a.pdf'')])))
     ''X'' (ex_world None []) =
     (Return [(''2023-2024'', ''http://nseindia.com/r.pdf''),
              (''Archive'', ''http://nseindia.com/a.pdf'')],
      \<lparr>json_file = None, tree = [], cwd = [], logged = [(INFO, Scraping ''X'')],
       sent = [(GET, ''http://nseindia.com/corporates/shldInformation/shldinfo_annualReports.jsp?symbol=X'')]\<rparr>) \<and>
   year_label ''2023'' = Return ''2023-2024'' \<and>
   year_label (str_nat 2023) = Return (str_nat 2023 @ ''-'' @ str_nat 2024) \<and>
   year_label ''Archive'' = Return ''Archive'' \<and>
   year_label [CHR 0xB2, CHR 0xB3, CHR 0xB9, CHR 0xB2] = Raise ValueError \<and>
   fst (scrape_links_for
     (ex_env [] (\<lambda>n q. Inr (ex_page [ex_anchor [CHR 0xB2, CHR 0xB3, CHR 0xB9, CHR 0xB2] (Some ''/r.pdf'')])))
     ''X'' (ex_world None [])) = Raise ValueError"
proof -
  let ?e = "ex_env [] (\<lambda>n q. Inr (ex_page [ex_anchor ''2023'' (Some ''/r.pdf''),
                                       ex_anchor ''Archive'' (Some ''/a.pdf'')]))"
  let ?sup = "[CHR 0xB2, CHR 0xB3, CHR 0xB9, CHR 0xB2]"
  let ?e2 = "ex_env [] (\<lambda>n q. Inr (ex_page [ex_anchor ?sup (Some ''/r.pdf'')]))"
  let ?w = "ex_world None []"
  let ?w1 = "\<lparr>json_file = None, tree = [], cwd = [], logged = [(INFO, Scraping ''X'')],
     sent = [(GET, ''http://nseindia.com/corporates/shldInformation/shldinfo_annualReports.jsp?symbol=X'')]\<rparr>"
  have scrape: "scrape_links_for ?e ''X'' ?w =
      (Return [(''2023-2024'', ''http://nseindia.com/r.pdf''),
               (''Archive'', ''http://nseindia.com/a.pdf'')], ?w1)"
    by (simp add: ex_defs string_defs aggregate_defs)
  have 1: "year_label ''2023'' = Return (''2023'' @ ''-'' @ str_int (int_of_digits ''2023'' + 1))"
    using year_label_of_anchor [of "''2023''", THEN conjunct1] by (simp add: is_decimal_def)
  have 2: "year_label (str_nat 2023) = Return (str_nat 2023 @ ''-'' @ str_nat (2023 + 1))"
    using year_label_of_anchor [of _ 2023, THEN conjunct2, THEN conjunct1] by simp
  have 3: "year_label ''Archive'' = Return ''Archive''"
    using year_label_of_anchor [of "''Archive''", THEN conjunct2, THEN conjunct2, THEN conjunct1]
    by simp
  have 4: "year_label ?sup = Raise ValueError"
    using year_label_of_anchor [of ?sup,
        THEN conjunct2, THEN conjunct2, THEN conjunct2, THEN conjunct1]
    by (simp add: isdigit_def is_digit_def is_decimal_def)
  have 5: "fst (scrape_links_for ?e2 ''X'' ?w) = Raise ValueError"
    by (simp add: ex_defs string_defs aggregate_defs)
  from scrape 1 2 3 4 5 show ?thesis
    by (simp add: string_defs)
qed

text \<open>
  Claim C10. When the page of a symbol has an anchor with no \<^verbatim>\<open>href\<close>, scraping the
  symbol raises: the anchor is not skipped. What is raised is the \<^verbatim>\<open>TypeError\<close> of the
  concatenation when the loop reaches that anchor and makes its label, and otherwise
  the \<^verbatim>\<open>ValueError\<close> of the label of that anchor or of one before it; once the page is
  there, these are the only two ways for scraping to raise. What scraping logs is the
  line that it scrapes the symbol, followed by the warning that no links are available
  exactly when the page has no anchor at all; so nothing is logged about the anchor.
\<close>

theorem scrape_anchor_without_href:
  "respond e (length (sent w)) (GET, LINK_URL @ encode_special_characters symbol) = Inr r \<longrightarrow>
     ((\<exists>a \<in> set (anchors r). anchor_href a = None) \<longrightarrow>
        (\<exists>x. fst (scrape_links_for e symbol w) = Raise x)) \<and>
     (\<forall>before a after.
        anchors r = before @ a # after \<and> anchor_href a = None \<and>
        (\<forall>b \<in> set before. anchor_href b \<noteq> None) \<and>
        (\<forall>b \<in> set (before @ [a]). \<exists>y. year_label (anchor_text b) = Return y) \<longrightarrow>
        fst (scrape_links_for e symbol w) = Raise TypeError) \<and>
     (\<forall>x. fst (scrape_links_for e symbol w) = Raise x \<longrightarrow>
        (x = TypeError \<and> (\<exists>a \<in> set (anchors r). anchor_href a = None)) \<or>
        (x = ValueError \<and> (\<exists>a \<in> set (anchors r). year_label (anchor_text a) = Raise ValueError))) \<and>
     logged (snd (scrape_links_for e symbol w)) =
        logged w @ (INFO, Scraping symbol) #
          (if anchors r = [] then [(WARNING, No_links_on_page symbol)] else [])"
proof (intro impI conjI allI)
  assume r: "respond e (length (sent w)) (GET, LINK_URL @ encode_special_characters symbol) = Inr r"
  note eq = scrape_links_for_cases [OF r]
  show "\<exists>x. fst (scrape_links_for e symbol w) = Raise x"
    if "\<exists>a \<in> set (anchors r). anchor_href a = None"
    using scrape_anchors_missing_href [OF that, of "[]"] by (auto simp: eq)
  show "fst (scrape_links_for e symbol w) = Raise TypeError"
    if h: "anchors r = before @ a # after \<and> anchor_href a = None \<and>
        (\<forall>b \<in> set before. anchor_href b \<noteq> None) \<and>
        (\<forall>b \<in> set (before @ [a]). \<exists>y. year_label (anchor_text b) = Return y)"
    for before a after
  proof -
    from h have "\<forall>b \<in> set before. anchor_href b \<noteq> None \<and> (\<exists>y. year_label (anchor_text b) = Return y)"
      by simp
    from scrape_anchors_stops [OF this, of a after "[]"] h
    have "scrape_anchors (anchors r) [] = Raise TypeError" by auto
    then show ?thesis by (simp add: eq)
  qed
  show "(x = TypeError \<and> (\<exists>a \<in> set (anchors r). anchor_href a = None)) \<or>
        (x = ValueError \<and> (\<exists>a \<in> set (anchors r). year_label (anchor_text a) = Raise ValueError))"
    if "fst (scrape_links_for e symbol w) = Raise x" for x
  proof -
    from that have "scrape_anchors (anchors r) [] = Raise x"
      by (auto simp: eq split: outcome.splits)
    then show ?thesis by (rule scrape_anchors_Raise)
  qed
  show "logged (snd (scrape_links_for e symbol w)) =
        logged w @ (INFO, Scraping symbol) #
          (if anchors r = [] then [(WARNING, No_links_on_page symbol)] else [])"
    by (simp add: eq)
qed

text \<open>
  A page whose second anchor has no \<^verbatim>\<open>href\<close>: scraping it raises, and logs one line.
\<close>

theorem scrape_anchor_without_href_witness:
  "fst (scrape_links_for
          (ex_env [] (\<lambda>n q. Inr (ex_page [ex_anchor ''2023'' (Some ''/r.pdf''), ex_anchor ''2022'' None])))
          ''X'' (ex_world None [])) = Raise TypeError \<and>
   logged (snd (scrape_links_for
          (ex_env [] (\<lambda>n q. Inr (ex_page [ex_anchor ''2023'' (Some ''/r.pdf''), ex_anchor ''2022'' None])))
          ''X'' (ex_world None []))) = [(INFO, Scraping ''X'')]"
proof -
  let ?a = "ex_anchor ''2023'' (Some ''/r.pdf'')"
  let ?b = "ex_anchor ''2022'' None"
  let ?e = "ex_env [] (\<lambda>n q. Inr (ex_page [?a, ?b]))"
  note inst = scrape_anchor_without_href [of ?e "ex_world None []" "''X''" "ex_page [?a, ?b]"]
  have r: "respond ?e (length (sent (ex_world None []))) (GET, LINK_URL @ encode_special_characters ''X'')
      = Inr (ex_page [?a, ?b])"
    by (simp add: ex_defs)
  have "anchors (ex_page [?a, ?b]) = [?a] @ ?b # [] \<and> anchor_href ?b = None \<and>
        (\<forall>b \<in> set [?a]. anchor_href b \<noteq> None) \<and>
        (\<forall>b \<in> set ([?a] @ [?b]). \<exists>y. year_label (anchor_text b) = Return y)"
    by (simp add: ex_defs string_defs)
  with inst [rule_format, OF r, THEN conjunct2, THEN conjunct1, rule_format, of "[?a]" ?b "[]"]
  have 1: "fst (scrape_links_for ?e ''X'' (ex_world None [])) = Raise TypeError"
    by blast
  from inst [rule_format, OF r, THEN conjunct2, THEN conjunct2, THEN conjunct2]
  have 2: "logged (snd (scrape_links_for ?e ''X'' (ex_world None []))) = [(INFO, Scraping ''X'')]"
    by (simp add: ex_defs)
  from 1 2 show ?thesis by simp
qed

subsection \<open>Merging scraped links\<close>

text \<open>
  The symbol is in the index when its scraped links are merged (line 411 puts it
  there), so the merge does not raise and keeps it there.
\<close>

lemma merge_link_present:
  assumes "annual_report_links st symbol \<noteq> None"
    and "merge_link symbol year link st w = (r, st1, w1)"
  shows "r = Return () \<and> annual_report_links st1 symbol \<noteq> None"
  using assms by (auto simp: merge_link_def split: option.splits if_splits)

lemma merge_links_present:
  assumes "annual_report_links st symbol \<noteq> None"
    and "merge_links symbol pairs st w = (r, st1, w1)"
  shows "r = Return () \<and> annual_report_links st1 symbol \<noteq> None"
  using assms
proof (induction pairs arbitrary: st w)
  case Nil
  then show ?case by simp
next
  case (Cons p pairs)
  obtain year link where p: "p = (year, link)" by (cases p)
  obtain r2 st2 w2 where m: "merge_link symbol year link st w = (r2, st2, w2)"
    by (cases "merge_link symbol year link st w")
  from merge_link_present [OF Cons.prems(1) m]
  have r2: "r2 = Return ()" and st2: "annual_report_links st2 symbol \<noteq> None" by simp_all
  from Cons.prems(2) p m r2 have "merge_links symbol pairs st2 w2 = (r, st1, w1)" by simp
  from Cons.IH [OF st2 this] show ?case .
qed

lemma classify_other_year:
  assumes "year \<notin> fst ` set pairs"
  shows "filter (added_pair (years(year \<mapsto> link))) pairs = filter (added_pair years) pairs"
    and "filter (modified_pair (years(year \<mapsto> link))) pairs = filter (modified_pair years) pairs"
    and "map (merge_log symbol (years(year \<mapsto> link))) pairs = map (merge_log symbol years) pairs"
proof -
  have ne: "fst p \<noteq> year" if "p \<in> set pairs" for p
    using that assms by force
  show "filter (added_pair (years(year \<mapsto> link))) pairs = filter (added_pair years) pairs"
    by (rule filter_cong) (simp_all add: added_pair_def ne)
  show "filter (modified_pair (years(year \<mapsto> link))) pairs = filter (modified_pair years) pairs"
    by (rule filter_cong) (simp_all add: modified_pair_def ne)
  show "map (merge_log symbol (years(year \<mapsto> link))) pairs = map (merge_log symbol years) pairs"
    by (rule map_cong) (simp_all add: merge_log_def added_pair_def modified_pair_def ne)
qed

lemma map_add_other_year:
  assumes "year \<notin> fst ` set pairs"
  shows "years(year \<mapsto> link) ++ map_of pairs = years ++ map_of ((year, link) # pairs)"
proof
  fix y
  from assms have "map_of pairs year = None"
    by (simp add: map_of_eq_None_iff)
  then show "(years(year \<mapsto> link) ++ map_of pairs) y = (years ++ map_of ((year, link) # pairs)) y"
    by (simp add: map_add_def split: option.splits)
qed

text \<open>
  What the loop over the scraped years does to the state and to the log, for a symbol
  that is in the index and scraped years that are distinct: each pair is read against
  the links that the symbol had before the loop.
\<close>

lemma merge_links_result:
  assumes "annual_report_links st symbol = Some years" and "distinct (map fst pairs)"
  shows "merge_links symbol pairs st w =
     (Return (),
      st\<lparr>annual_report_links := (annual_report_links st)(symbol \<mapsto> years ++ map_of pairs),
         links_added := links_added st + length (filter (added_pair years) pairs),
         links_modified := links_modified st + length (filter (modified_pair years) pairs),
         links_added_for := links_added_for st @
           replicate (length (filter (added_pair years) pairs)) symbol,
         links_modified_for := links_modified_for st @
           replicate (length (filter (modified_pair years) pairs)) symbol\<rparr>,
      w\<lparr>logged := logged w @ concat (map (merge_log symbol years) pairs)\<rparr>)"
  using assms
proof (induction pairs arbitrary: st w years)
  case Nil
  then show ?case by (simp add: fun_upd_idem)
next
  case (Cons p pairs)
  obtain year link where p: "p = (year, link)" by (cases p)
  from Cons.prems(2) p have fresh: "year \<notin> fst ` set pairs" and d: "distinct (map fst pairs)"
    by simp_all
  note other = classify_other_year [OF fresh, where years = years and link = link]
  have eq: "years ++ map_of (p # pairs) = years(year \<mapsto> link) ++ map_of pairs"
    unfolding p by (rule map_add_other_year [OF fresh, symmetric])
  consider (added) "years year = None"
    | (modified) old where "years year = Some old" "old \<noteq> link"
    | (same) "years year = Some link"
    by (cases "years year") auto
  then show ?case
  proof cases
    case added
    let ?st2 = "st\<lparr>annual_report_links := (annual_report_links st)(symbol \<mapsto> years(year \<mapsto> link)),
        links_added := links_added st + 1,
        links_added_for := links_added_for st @ [symbol]\<rparr>"
    let ?w2 = "w\<lparr>logged := logged w @ [(INFO, Added symbol year link)]\<rparr>"
    have m: "merge_link symbol year link st w = (Return (), ?st2, ?w2)"
      using Cons.prems(1) added by (simp add: merge_link_def logger_def)
    have "annual_report_links ?st2 symbol = Some (years(year \<mapsto> link))" by simp
    note ih = Cons.IH [OF this d, of ?w2, unfolded other]
    have step: "merge_links symbol (p # pairs) st w = merge_links symbol pairs ?st2 ?w2"
      by (simp add: p m)
    from added have "added_pair years (year, link)"
      and "\<not> modified_pair years (year, link)"
      and "merge_log symbol years (year, link) = [(INFO, Added symbol year link)]"
      by (simp_all add: added_pair_def modified_pair_def merge_log_def)
    then show ?thesis
      unfolding step ih eq by (simp add: p replicate_append_same fun_upd_def cong: if_cong)
  next
    case modified
    let ?st2 = "st\<lparr>annual_report_links := (annual_report_links st)(symbol \<mapsto> years(year \<mapsto> link)),
        links_modified := links_modified st + 1,
        links_modified_for := links_modified_for st @ [symbol]\<rparr>"
    let ?w2 = "w\<lparr>logged := logged w @ [(WARNING, Modified symbol year link)]\<rparr>"
    have m: "merge_link symbol year link st w = (Return (), ?st2, ?w2)"
      using Cons.prems(1) modified by (simp add: merge_link_def logger_def)
    have "annual_report_links ?st2 symbol = Some (years(year \<mapsto> link))" by simp
    note ih = Cons.IH [OF this d, of ?w2, unfolded other]
    have step: "merge_links symbol (p # pairs) st w = merge_links symbol pairs ?st2 ?w2"
      by (simp add: p m)
    from modified have "\<not> added_pair years (year, link)"
      and "modified_pair years (year, link)"
      and "merge_log symbol years (year, link) = [(WARNING, Modified symbol year link)]"
      by (simp_all add: added_pair_def modified_pair_def merge_log_def)
    then show ?thesis
      unfolding step ih eq by (simp add: p replicate_append_same fun_upd_def cong: if_cong)
  next
    case same
    have m: "merge_link symbol year link st w = (Return (), st, w)"
      using Cons.prems(1) same by (simp add: merge_link_def)
    from same have "years(year \<mapsto> link) = years" by (simp add: fun_upd_idem)
    with Cons.prems(1) have "annual_report_links st symbol = Some (years(year \<mapsto> link))" by simp
    note ih = Cons.IH [OF this d, of w, unfolded other]
    have step: "merge_links symbol (p # pairs) st w = merge_links symbol pairs st w"
      by (simp add: p m)
    from same have "\<not> added_pair years (year, link)"
      and "\<not> modified_pair years (year, link)"
      and "merge_log symbol years (year, link) = []"
      by (simp_all add: added_pair_def modified_pair_def merge_log_def)
    then show ?thesis
      unfolding step ih eq by (simp add: p fun_upd_def cong: if_cong)
  qed
qed

text \<open>
  Claim C1. When a symbol is scraped and the scrape returns, each scraped pair of a year
  and a link is read against the links that the symbol had in the index before (none
  when the symbol was not there). After the step the symbol has these links overridden
  by the scraped ones, so that every scraped year has its scraped link and every other
  year keeps its link. A pair whose year was not there is counted as added and logged
  as added; a pair whose year was there with a different link is counted and logged as
  modified, not as added; for a pair whose year was there with the same link nothing is
  counted or logged. The step counts the symbol as scraped, logs the pairs in the order
  of their years, after the line for a symbol that is new to the index, and returns
  normally.
\<close>

theorem aggregate_symbol_merges:
  assumes "needs_scrape force_update (annual_report_links st) (upper e s) fy"
    and "scrape_links_for e (upper e s) w = (Return pairs, w1)"
    and "years = (case annual_report_links st (upper e s) of None \<Rightarrow> Map.empty | Some ys \<Rightarrow> ys)"
  shows "aggregate_symbol e force_update fy s st w =
     (Return (),
      st\<lparr>annual_report_links := (annual_report_links st)(upper e s \<mapsto> years ++ map_of pairs),
         symbols_scraped := symbols_scraped st + 1,
         links_added := links_added st + length (filter (added_pair years) pairs),
         links_modified := links_modified st + length (filter (modified_pair years) pairs),
         links_added_for := links_added_for st @
           replicate (length (filter (added_pair years) pairs)) (upper e s),
         links_modified_for := links_modified_for st @
           replicate (length (filter (modified_pair years) pairs)) (upper e s)\<rparr>,
      w1\<lparr>logged := logged w1 @
           (if annual_report_links st (upper e s) = None
            then [(DEBUG, Would_be_added (upper e s))] else []) @
           concat (map (merge_log (upper e s) years) pairs)\<rparr>) \<and>
    (\<forall>p \<in> set pairs. (years ++ map_of pairs) (fst p) = Some (snd p)) \<and>
    (\<forall>year. year \<notin> fst ` set pairs \<longrightarrow> (years ++ map_of pairs) year = years year)"
proof (intro conjI ballI allI impI)
  let ?symbol = "upper e s"
  let ?st1 = "st\<lparr>symbols_scraped := symbols_scraped st + 1\<rparr>"
  from assms(2) have d: "distinct (map fst pairs)" by (rule scrape_links_for_distinct)
  show "aggregate_symbol e force_update fy s st w =
     (Return (),
      st\<lparr>annual_report_links := (annual_report_links st)(?symbol \<mapsto> years ++ map_of pairs),
         symbols_scraped := symbols_scraped st + 1,
         links_added := links_added st + length (filter (added_pair years) pairs),
         links_modified := links_modified st + length (filter (modified_pair years) pairs),
         links_added_for := links_added_for st @
           replicate (length (filter (added_pair years) pairs)) ?symbol,
         links_modified_for := links_modified_for st @
           replicate (length (filter (modified_pair years) pairs)) ?symbol\<rparr>,
      w1\<lparr>logged := logged w1 @
           (if annual_report_links st ?symbol = None
            then [(DEBUG, Would_be_added ?symbol)] else []) @
           concat (map (merge_log ?symbol years) pairs)\<rparr>)"
  proof (cases "annual_report_links st ?symbol")
    case None
    let ?st2 = "?st1\<lparr>annual_report_links := (annual_report_links ?st1)(?symbol \<mapsto> Map.empty)\<rparr>"
    have "annual_report_links ?st2 ?symbol = Some Map.empty" by simp
    from merge_links_result [OF this d, of "logger DEBUG (Would_be_added ?symbol) w1"]
    show ?thesis
      using assms None by (simp add: aggregate_symbol_def logger_def Let_def)
  next
    case (Some ys)
    then have "annual_report_links ?st1 ?symbol = Some ys" by simp
    from merge_links_result [OF this d, of w1]
    show ?thesis
      using assms Some by (simp add: aggregate_symbol_def Let_def)
  qed
  show "(years ++ map_of pairs) (fst p) = Some (snd p)" if "p \<in> set pairs" for p
  proof -
    from that d have "map_of pairs (fst p) = Some (snd p)" by simp
    then show ?thesis by (simp add: map_add_def)
  qed
  show "(years ++ map_of pairs) year = years year" if "year \<notin> fst ` set pairs" for year
  proof -
    from that have "map_of pairs year = None" by (simp add: map_of_eq_None_iff)
    then show ?thesis by (simp add: map_add_def)
  qed
qed

text \<open>
  The symbol \<^verbatim>\<open>X\<close> has \<^verbatim>\<open>url-old\<close> for 2022-2023 and a link for 2021-2022; its page has a
  new link for 2022, the same link for 2021, and a link for 2020. The first is logged
  as modified, the last as added, and the index has the three scraped links.
\<close>

theorem aggregate_symbol_merges_witness:
  "aggregate_symbol
     (ex_env [] (\<lambda>n q. Inr (ex_page [ex_anchor ''2022'' (Some ''/url-new''),
                                       ex_anchor ''2021'' (Some ''/same''),
                                       ex_anchor ''2020'' (Some ''/first'')])))
     False ''2023-2024'' ''x''
     (aggregate_init [''X'' \<mapsto> [''2022-2023'' \<mapsto> ''url-old'',
                                 ''2021-2022'' \<mapsto> ''http://nseindia.com/same'']])
     (ex_world None []) =
   (Return (),
    \<lparr>annual_report_links =
       [''X'' \<mapsto> [''2022-2023'' \<mapsto> ''http://nseindia.com/url-new'',
                   ''2021-2022'' \<mapsto> ''http://nseindia.com/same'',
                   ''2020-2021'' \<mapsto> ''http://nseindia.com/first'']],
     symbols_scraped = 1, links_added = 1, links_modified = 1,
     links_added_for = [''X''], links_modified_for = [''X'']\<rparr>,
    \<lparr>json_file = None, tree = [], cwd = [],
     logged = [(INFO, Scraping ''X''),
       (INFO, Added ''X'' ''2020-2021'' ''http://nseindia.com/first''),
       (WARNING, Modified ''X'' ''2022-2023'' ''http://nseindia.com/url-new'')],
     sent = [(GET, ''http://nseindia.com/corporates/shldInformation/shldinfo_annualReports.jsp?symbol=X'')]\<rparr>)"
proof -
  let ?e = "ex_env [] (\<lambda>n q. Inr (ex_page [ex_anchor ''2022'' (Some ''/url-new''),
                                       ex_anchor ''2021'' (Some ''/same''),
                                       ex_anchor ''2020'' (Some ''/first'')]))"
  let ?years = "[''2022-2023'' \<mapsto> ''url-old'', ''2021-2022'' \<mapsto> ''http://nseindia.com/same'']"
  let ?st = "aggregate_init [''X'' \<mapsto> ?years]"
  let ?pairs = "[(''2020-2021'', ''http://nseindia.com/first''),
                 (''2021-2022'', ''http://nseindia.com/same''),
                 (''2022-2023'', ''http://nseindia.com/url-new'')]"
  let ?w1 = "\<lparr>json_file = None, tree = [], cwd = [], logged = [(INFO, Scraping ''X'')],
     sent = [(GET, ''http://nseindia.com/corporates/shldInformation/shldinfo_annualReports.jsp?symbol=X'')]\<rparr>"
  have up: "upper ?e ''x'' = ''X''" by (simp add: ex_defs)
  have need: "needs_scrape False (annual_report_links ?st) (upper ?e ''x'') ''2023-2024''"
    by (simp add: up aggregate_init_def needs_scrape_def truthy_links_def truthy_str_def)
  have scrape: "scrape_links_for ?e (upper ?e ''x'') (ex_world None []) = (Return ?pairs, ?w1)"
    unfolding up by (simp add: ex_defs string_defs aggregate_defs)
  have years: "?years = (case annual_report_links ?st (upper ?e ''x'') of
      None \<Rightarrow> Map.empty | Some ys \<Rightarrow> ys)"
    by (simp add: up aggregate_init_def)
  have idx: "?years ++ map_of ?pairs =
      [''2022-2023'' \<mapsto> ''http://nseindia.com/url-new'',
       ''2021-2022'' \<mapsto> ''http://nseindia.com/same'',
       ''2020-2021'' \<mapsto> ''http://nseindia.com/first'']"
    by (auto simp: fun_eq_iff map_add_def)
  from aggregate_symbol_merges [OF need scrape years, THEN conjunct1]
  show ?thesis
    unfolding idx up
    by (simp add: aggregate_init_def added_pair_def modified_pair_def merge_log_def)
qed

text \<open>
  A whole run on the index that has \<^verbatim>\<open>url-old\<close> for the year 2022-2023 of \<^verbatim>\<open>X\<close>, when
  the page of \<^verbatim>\<open>X\<close> has a new link for 2022: the stored link is replaced and the change
  is logged as modified.
\<close>

lemma aggregate_links_example_modified:
  "aggregate_links
     (ex_env [''x''] (\<lambda>n q. Inr (ex_page [ex_anchor ''2022'' (Some ''/url-new'')])))
     ''download_symbols.txt'' False 0
     (ex_world (Some [''X'' \<mapsto> [''2022-2023'' \<mapsto> ''url-old'']]) []) =
   (Return (),
    \<lparr>json_file = Some [''X'' \<mapsto> [''2022-2023'' \<mapsto> ''http://nseindia.com/url-new'']],
     tree = [], cwd = [],
     logged = [(DEBUG, Reading_json), (DEBUG, Reading_symbol_file), (INFO, Scraping ''X''),
       (WARNING, Modified ''X'' ''2022-2023'' ''http://nseindia.com/url-new''),
       (DEBUG, Writing_json), (INFO, Total_scraped 1), (INFO, Total_added 0 []),
       (INFO, Total_modified 1 [''X'']), (INFO, Aggregation_finished)],
     sent = [(GET, ''http://nseindia.com/corporates/shldInformation/shldinfo_annualReports.jsp?symbol=X'')]\<rparr>)"
  by (simp add: ex_defs string_defs aggregate_defs)

subsection \<open>Skipping symbols that have the current year\<close>

lemma needs_scrape_current:
  assumes "idx symbol = Some years" and "years fy = Some url" and "url \<noteq> []"
  shows "\<not> needs_scrape False idx symbol fy"
proof -
  from assms(2) have "years \<noteq> Map.empty" by auto
  with assms show ?thesis by (simp add: needs_scrape_def truthy_links_def truthy_str_def)
qed

text \<open>
  An empty string under the label is not a URL for the test of line 404: such a symbol
  is scraped again.
\<close>

lemma needs_scrape_empty_url:
  assumes "idx symbol = Some years" and "years fy = Some []"
  shows "needs_scrape False idx symbol fy"
  using assms by (simp add: needs_scrape_def truthy_str_def)

lemma aggregate_symbol_skip:
  assumes "annual_report_links st (upper e s) = Some years" and "years fy = Some url" and "url \<noteq> []"
  shows "aggregate_symbol e False fy s st w = (Return (), st, w)"
proof -
  have "\<not> needs_scrape False (annual_report_links st) (upper e s) fy"
    using assms by (rule needs_scrape_current)
  then show ?thesis by (simp add: aggregate_symbol_def)
qed

lemma aggregate_loop_skip:
  assumes "\<forall>s \<in> set syms. \<exists>years url.
             annual_report_links st (upper e s) = Some years \<and> years fy = Some url \<and> url \<noteq> []"
  shows "aggregate_loop e False fy syms st w = (Return (), st, w)"
  using assms
proof (induction syms)
  case Nil
  then show ?case by simp
next
  case (Cons s syms)
  from Cons.prems obtain years url where
    "annual_report_links st (upper e s) = Some years" "years fy = Some url" "url \<noteq> []"
    by auto
  then have "aggregate_symbol e False fy s st w = (Return (), st, w)"
    by (rule aggregate_symbol_skip)
  moreover from Cons have "aggregate_loop e False fy syms st w = (Return (), st, w)" by simp
  ultimately show ?case by simp
qed

lemma read_symbol_file_fst:
  "fst (read_symbol_file e f w) =
     (case symbol_lines e f of None \<Rightarrow> [] | Some scrips \<Rightarrow> filter (\<lambda>s. s \<noteq> []) scrips)"
  by (simp add: read_symbol_file_def Let_def split: option.splits)

lemma read_symbol_file_logged:
  "snd (read_symbol_file e f w) =
     w\<lparr>logged := logged w @ (DEBUG, Reading_symbol_file) #
        (case symbol_lines e f of None \<Rightarrow> [(ERROR, Symbol_file_not_found f)] | Some _ \<Rightarrow> [])\<rparr>"
  by (simp add: read_symbol_file_def logger_def Let_def split: option.splits)

text \<open>
  Claim C2. Without \<^verbatim>\<open>force_update\<close>, a symbol whose entry in the index has a URL (a
  string that is not empty) under the label of the current financial year is not
  scraped: the step for it changes neither the state of the loop nor the world, so it
  sends no request. Hence, when every symbol of the file that the run reaches has such
  a URL, the run returns normally, sends nothing, logs zero symbols scraped, zero links
  added and zero links modified, and writes back the index that it read.
\<close>

theorem aggregate_links_idempotent:
  "(\<forall>s (st::agg_state) w years url.
      annual_report_links st (upper e s) = Some years \<and>
      years (get_latest_financial_year e) = Some url \<and> url \<noteq> [] \<longrightarrow>
      aggregate_symbol e False (get_latest_financial_year e) s st w = (Return (), st, w)) \<and>
   ((\<forall>s \<in> set (slice_from offset (fst (read_symbol_file e symbol_file w))).
       \<exists>years url. fst (read_json w) (upper e s) = Some years \<and>
          years (get_latest_financial_year e) = Some url \<and> url \<noteq> []) \<longrightarrow>
    aggregate_links e symbol_file False offset w =
      (Return (),
       w\<lparr>json_file := Some (fst (read_json w)),
         logged := logged w @ [(DEBUG, Reading_json), (DEBUG, Reading_symbol_file)] @
           (case symbol_lines e symbol_file of
              None \<Rightarrow> [(ERROR, Symbol_file_not_found symbol_file)] | Some _ \<Rightarrow> []) @
           [(DEBUG, Writing_json), (INFO, Total_scraped 0), (INFO, Total_added 0 []),
            (INFO, Total_modified 0 []), (INFO, Aggregation_finished)]\<rparr>))"
proof (intro conjI allI impI)
  fix s w years url and st :: agg_state
  assume "annual_report_links st (upper e s) = Some years \<and>
      years (get_latest_financial_year e) = Some url \<and> url \<noteq> []"
  then show "aggregate_symbol e False (get_latest_financial_year e) s st w = (Return (), st, w)"
    by (auto intro: aggregate_symbol_skip)
next
  let ?fy = "get_latest_financial_year e"
  let ?idx = "fst (read_json w)"
  let ?w1 = "snd (read_json w)"
  let ?syms = "fst (read_symbol_file e symbol_file w)"
  let ?w2 = "snd (read_symbol_file e symbol_file ?w1)"
  assume a: "\<forall>s \<in> set (slice_from offset ?syms).
       \<exists>years url. ?idx (upper e s) = Some years \<and> years ?fy = Some url \<and> url \<noteq> []"
  have syms: "fst (read_symbol_file e symbol_file ?w1) = ?syms"
    by (simp add: read_symbol_file_fst)
  have "aggregate_loop e False ?fy (slice_from offset ?syms) (aggregate_init ?idx) ?w2 =
          (Return (), aggregate_init ?idx, ?w2)"
    using a by (intro aggregate_loop_skip) (simp add: aggregate_init_def)
  then have "aggregate_links e symbol_file False offset w =
      (Return (), logger INFO Aggregation_finished (aggregate_finally (aggregate_init ?idx) ?w2))"
    using syms by (simp add: aggregate_links_def split_beta)
  also have "logger INFO Aggregation_finished (aggregate_finally (aggregate_init ?idx) ?w2) =
      w\<lparr>json_file := Some ?idx,
         logged := logged w @ [(DEBUG, Reading_json), (DEBUG, Reading_symbol_file)] @
           (case symbol_lines e symbol_file of
              None \<Rightarrow> [(ERROR, Symbol_file_not_found symbol_file)] | Some _ \<Rightarrow> []) @
           [(DEBUG, Writing_json), (INFO, Total_scraped 0), (INFO, Total_added 0 []),
            (INFO, Total_modified 0 []), (INFO, Aggregation_finished)]\<rparr>"
    by (simp add: read_symbol_file_logged aggregate_finally_def aggregate_init_def write_json_def
        logger_def read_json_def Let_def split: option.splits)
  finally show "aggregate_links e symbol_file False offset w =
      (Return (),
       w\<lparr>json_file := Some ?idx,
         logged := logged w @ [(DEBUG, Reading_json), (DEBUG, Reading_symbol_file)] @
           (case symbol_lines e symbol_file of
              None \<Rightarrow> [(ERROR, Symbol_file_not_found symbol_file)] | Some _ \<Rightarrow> []) @
           [(DEBUG, Writing_json), (INFO, Total_scraped 0), (INFO, Total_added 0 []),
            (INFO, Total_modified 0 []), (INFO, Aggregation_finished)]\<rparr>)" .
qed

text \<open>
  A run in 2024 on an index that has a link of 2023-2024 for the only symbol; the
  network is not asked.
\<close>

theorem aggregate_links_idempotent_witness:
  "aggregate_links (ex_env [''x''] (\<lambda>n q. Inl (RequestError ''unreachable'')))
     ''download_symbols.txt'' False 0
     (ex_world (Some [''X'' \<mapsto> [''2023-2024'' \<mapsto> ''http://nseindia.com/r1.pdf'']]) []) =
   (Return (),
    \<lparr>json_file = Some [''X'' \<mapsto> [''2023-2024'' \<mapsto> ''http://nseindia.com/r1.pdf'']],
     tree = [], cwd = [],
     logged = [(DEBUG, Reading_json), (DEBUG, Reading_symbol_file),
       (DEBUG, Writing_json), (INFO, Total_scraped 0), (INFO, Total_added 0 []),
       (INFO, Total_modified 0 []), (INFO, Aggregation_finished)],
     sent = []\<rparr>)"
  using aggregate_links_idempotent
    [of "ex_env [''x''] (\<lambda>n q. Inl (RequestError ''unreachable''))" 0 "''download_symbols.txt''"
      "ex_world (Some [''X'' \<mapsto> [''2023-2024'' \<mapsto> ''http://nseindia.com/r1.pdf'']]) []",
     THEN conjunct2]
  by (simp add: ex_defs string_defs read_json_def read_symbol_file_def logger_def Let_def)

subsection \<open>The aggregation run\<close>

lemma aggregate_symbol_Raise:
  assumes "aggregate_symbol e force_update fy s st w = (Raise x, st1, w1)"
  shows "st1 = st"
proof (cases "needs_scrape force_update (annual_report_links st) (upper e s) fy")
  case False
  with assms show ?thesis by (simp add: aggregate_symbol_def)
next
  case True
  obtain r w2 where sc: "scrape_links_for e (upper e s) w = (r, w2)"
    by (cases "scrape_links_for e (upper e s) w")
  show ?thesis
  proof (cases r)
    case (Raise y)
    with assms True sc show ?thesis by (simp add: aggregate_symbol_def)
  next
    case (Return symbol_links)
    let ?st1 = "st\<lparr>symbols_scraped := symbols_scraped st + 1\<rparr>"
    show ?thesis
    proof (cases "annual_report_links st (upper e s)")
      case None
      with assms True sc Return have
        "merge_links (upper e s) symbol_links
           (?st1\<lparr>annual_report_links := (annual_report_links ?st1)(upper e s \<mapsto> Map.empty)\<rparr>)
           (logger DEBUG (Would_be_added (upper e s)) w2) = (Raise x, st1, w1)"
        by (simp add: aggregate_symbol_def Let_def)
      from merge_links_present [OF _ this] show ?thesis by simp
    next
      case (Some years)
      with assms True sc Return have
        "merge_links (upper e s) symbol_links ?st1 w2 = (Raise x, st1, w1)"
        by (simp add: aggregate_symbol_def Let_def)
      from merge_links_present [OF _ this] Some show ?thesis by simp
    qed
  qed
qed

lemma aggregate_loop_append:
  "aggregate_loop e force_update fy (pre @ post) st w =
     (case aggregate_loop e force_update fy pre st w of
        (Raise x, st1, w1) \<Rightarrow> (Raise x, st1, w1)
      | (Return _, st1, w1) \<Rightarrow> aggregate_loop e force_update fy post st1 w1)"
  by (induction pre arbitrary: st w) (auto split: prod.splits outcome.splits)

lemma aggregate_links_result:
  assumes "aggregate_loop e force_update (get_latest_financial_year e)
             (slice_from offset (fst (read_symbol_file e symbol_file w)))
             (aggregate_init (fst (read_json w)))
             (snd (read_symbol_file e symbol_file (snd (read_json w)))) = (r, st, w3)"
  shows "aggregate_links e symbol_file force_update offset w =
           (r, (case r of Return _ \<Rightarrow> logger INFO Aggregation_finished | Raise _ \<Rightarrow> id)
                 (aggregate_finally st w3))"
proof -
  have "fst (read_symbol_file e symbol_file (snd (read_json w))) =
          fst (read_symbol_file e symbol_file w)"
    by (simp add: read_symbol_file_fst)
  with assms show ?thesis
    by (cases r) (simp_all add: aggregate_links_def split_beta)
qed

lemma aggregate_finally_fields:
  "json_file (aggregate_finally st w) = Some (annual_report_links st)"
  "logged (aggregate_finally st w) =
     logged w @ [(DEBUG, Writing_json), (INFO, Total_scraped (symbols_scraped st)),
       (INFO, Total_added (links_added st) (links_added_for st)),
       (INFO, Total_modified (links_modified st) (links_modified_for st))]"
  by (simp_all add: aggregate_finally_def write_json_def logger_def)

text \<open>
  Claim C3. Whatever the loop over the symbols returns, normally or with an exception,
  \<^verbatim>\<open>aggregate_links\<close> returns the same: before that it writes the index as the loop
  left it to the JSON file and logs the number of symbols scraped, the links added and
  the links modified, with the symbols they were for. In particular, when the step of
  a symbol raises, the file holds the index as the symbols before it left it, and the
  exception of that step is what the caller gets.
\<close>

theorem aggregate_links_always_writes:
  "(aggregate_loop e force_update (get_latest_financial_year e)
      (slice_from offset (fst (read_symbol_file e symbol_file w)))
      (aggregate_init (fst (read_json w)))
      (snd (read_symbol_file e symbol_file (snd (read_json w)))) = (r, st, w3) \<longrightarrow>
    fst (aggregate_links e symbol_file force_update offset w) = r \<and>
    json_file (snd (aggregate_links e symbol_file force_update offset w)) =
      Some (annual_report_links st) \<and>
    logged (snd (aggregate_links e symbol_file force_update offset w)) =
      logged w3 @ [(DEBUG, Writing_json), (INFO, Total_scraped (symbols_scraped st)),
        (INFO, Total_added (links_added st) (links_added_for st)),
        (INFO, Total_modified (links_modified st) (links_modified_for st))] @
      (case r of Return _ \<Rightarrow> [(INFO, Aggregation_finished)] | Raise _ \<Rightarrow> [])) \<and>
   (slice_from offset (fst (read_symbol_file e symbol_file w)) = pre @ s # post \<and>
    aggregate_loop e force_update (get_latest_financial_year e) pre
      (aggregate_init (fst (read_json w)))
      (snd (read_symbol_file e symbol_file (snd (read_json w)))) = (Return (), st_pre, w_pre) \<and>
    aggregate_symbol e force_update (get_latest_financial_year e) s st_pre w_pre =
      (Raise x, st_s, w_s) \<longrightarrow>
    fst (aggregate_links e symbol_file force_update offset w) = Raise x \<and>
    json_file (snd (aggregate_links e symbol_file force_update offset w)) =
      Some (annual_report_links st_pre))"
proof (intro conjI impI)
  assume a: "aggregate_loop e force_update (get_latest_financial_year e)
      (slice_from offset (fst (read_symbol_file e symbol_file w)))
      (aggregate_init (fst (read_json w)))
      (snd (read_symbol_file e symbol_file (snd (read_json w)))) = (r, st, w3)"
  note res = aggregate_links_result [OF a]
  show "fst (aggregate_links e symbol_file force_update offset w) = r"
    by (simp add: res)
  show "json_file (snd (aggregate_links e symbol_file force_update offset w)) =
      Some (annual_report_links st)"
    by (cases r) (simp_all add: res aggregate_finally_fields logger_def)
  show "logged (snd (aggregate_links e symbol_file force_update offset w)) =
      logged w3 @ [(DEBUG, Writing_json), (INFO, Total_scraped (symbols_scraped st)),
        (INFO, Total_added (links_added st) (links_added_for st)),
        (INFO, Total_modified (links_modified st) (links_modified_for st))] @
      (case r of Return _ \<Rightarrow> [(INFO, Aggregation_finished)] | Raise _ \<Rightarrow> [])"
    by (cases r) (simp_all add: res aggregate_finally_fields logger_def)
next
  assume b: "slice_from offset (fst (read_symbol_file e symbol_file w)) = pre @ s # post \<and>
    aggregate_loop e force_update (get_latest_financial_year e) pre
      (aggregate_init (fst (read_json w)))
      (snd (read_symbol_file e symbol_file (snd (read_json w)))) = (Return (), st_pre, w_pre) \<and>
    aggregate_symbol e force_update (get_latest_financial_year e) s st_pre w_pre =
      (Raise x, st_s, w_s)"
  then have "st_s = st_pre" by (auto dest: aggregate_symbol_Raise)
  with b have "aggregate_loop e force_update (get_latest_financial_year e)
      (slice_from offset (fst (read_symbol_file e symbol_file w)))
      (aggregate_init (fst (read_json w)))
      (snd (read_symbol_file e symbol_file (snd (read_json w)))) = (Raise x, st_pre, w_s)"
    by (simp add: aggregate_loop_append)
  note res = aggregate_links_result [OF this]
  show "fst (aggregate_links e symbol_file force_update offset w) = Raise x"
    by (simp add: res)
  show "json_file (snd (aggregate_links e symbol_file force_update offset w)) =
      Some (annual_report_links st_pre)"
    by (simp add: res aggregate_finally_fields)
qed

text \<open>
  Two symbols: the page of the first is scraped, the request for the second fails.
  The link of the first is in the file and the failure reaches the caller.
\<close>

theorem aggregate_links_always_writes_witness:
  "fst (aggregate_links
          (ex_env [''x'', ''y'']
             (\<lambda>n q. if n = 0 then Inr (ex_page [ex_anchor ''2022'' (Some ''/url-new'')])
                     else Inl (RequestError ''ConnectionError'')))
          ''download_symbols.txt'' False 0 (ex_world None [])) =
     Raise (RequestError ''ConnectionError'') \<and>
   json_file (snd (aggregate_links
          (ex_env [''x'', ''y'']
             (\<lambda>n q. if n = 0 then Inr (ex_page [ex_anchor ''2022'' (Some ''/url-new'')])
                     else Inl (RequestError ''ConnectionError'')))
          ''download_symbols.txt'' False 0 (ex_world None []))) =
     Some [''X'' \<mapsto> [''2022-2023'' \<mapsto> ''http://nseindia.com/url-new'']]"
proof -
  let ?e = "ex_env [''x'', ''y'']
             (\<lambda>n q. if n = 0 then Inr (ex_page [ex_anchor ''2022'' (Some ''/url-new'')])
                     else Inl (RequestError ''ConnectionError''))"
  let ?w = "ex_world None []"
  let ?st = "\<lparr>annual_report_links = [''X'' \<mapsto> [''2022-2023'' \<mapsto> ''http://nseindia.com/url-new'']],
       symbols_scraped = 1, links_added = 1, links_modified = 0,
       links_added_for = [''X''], links_modified_for = []\<rparr>"
  let ?w1 = "\<lparr>json_file = None, tree = [], cwd = [],
       logged = [(DEBUG, Reading_json), (DEBUG, Reading_symbol_file), (INFO, Scraping ''X''),
         (DEBUG, Would_be_added ''X''),
         (INFO, Added ''X'' ''2022-2023'' ''http://nseindia.com/url-new'')],
       sent = [(GET, ''http://nseindia.com/corporates/shldInformation/shldinfo_annualReports.jsp?symbol=X'')]\<rparr>"
  let ?w2 = "\<lparr>json_file = None, tree = [], cwd = [],
       logged = [(DEBUG, Reading_json), (DEBUG, Reading_symbol_file), (INFO, Scraping ''X''),
         (DEBUG, Would_be_added ''X''),
         (INFO, Added ''X'' ''2022-2023'' ''http://nseindia.com/url-new''), (INFO, Scraping ''Y'')],
       sent = [(GET, ''http://nseindia.com/corporates/shldInformation/shldinfo_annualReports.jsp?symbol=X''),
         (GET, ''http://nseindia.com/corporates/shldInformation/shldinfo_annualReports.jsp?symbol=Y'')]\<rparr>"
  have syms: "slice_from 0 (fst (read_symbol_file ?e ''download_symbols.txt'' ?w)) = [''x''] @ ''y'' # []"
    by (simp add: ex_defs slice_from_def read_symbol_file_def Let_def)
  have pre: "aggregate_loop ?e False (get_latest_financial_year ?e) [''x'']
      (aggregate_init (fst (read_json ?w)))
      (snd (read_symbol_file ?e ''download_symbols.txt'' (snd (read_json ?w)))) =
      (Return (), ?st, ?w1)"
    by (simp add: ex_defs string_defs aggregate_defs)
  have step: "aggregate_symbol ?e False (get_latest_financial_year ?e) ''y'' ?st ?w1 =
      (Raise (RequestError ''ConnectionError''), ?st, ?w2)"
    by (simp add: ex_defs string_defs aggregate_defs)
  from aggregate_links_always_writes [THEN conjunct2, rule_format, OF conjI [OF syms conjI [OF pre step]]]
  show ?thesis by simp
qed

subsection \<open>File names\<close>

lemma split_on_nonempty: "split_on sep s \<noteq> []"
  by (induction s) (auto split: list.splits)

lemma split_on_no_sep: "sep \<notin> set a \<Longrightarrow> split_on sep a = [a]"
  by (induction a) auto

lemma split_on_sep_append:
  "split_on sep (a @ sep # b) = split_on sep a @ split_on sep b"
  by (induction a) (auto simp: split_on_nonempty split: list.splits)

lemma join_with_split_on: "join_with [sep] (split_on sep s) = s"
proof (induction s)
  case Nil
  show ?case by simp
next
  case (Cons c s)
  obtain x xs where x: "split_on sep s = x # xs"
    using split_on_nonempty [of sep s] by (cases "split_on sep s") auto
  with Cons show ?case by (cases xs) auto
qed

lemma last_four_append: "length ys = 4 \<Longrightarrow> last_four (xs @ ys) = ys"
  by (simp add: last_four_def)

lemma last_four_short: "length xs \<le> 4 \<Longrightarrow> last_four xs = xs"
  by (simp add: last_four_def)

lemma basename_append:
  assumes "CHR ''/'' \<notin> set b"
  shows "basename (a @ b) = basename a @ b"
proof -
  from assms have "\<And>c. c \<in> set (rev b) \<Longrightarrow> c \<noteq> CHR ''/''" by auto
  then have "takeWhile (\<lambda>c. c \<noteq> CHR ''/'') (rev b @ rev a) =
      rev b @ takeWhile (\<lambda>c. c \<noteq> CHR ''/'') (rev a)"
    by (rule takeWhile_append2)
  then show ?thesis by (simp add: basename_def)
qed

lemma basename_no_slash: "CHR ''/'' \<notin> set (basename p)"
proof -
  have "\<forall>c \<in> set (takeWhile (\<lambda>c. c \<noteq> CHR ''/'') (rev p)). c \<noteq> CHR ''/''"
    by (auto dest: set_takeWhileD)
  then show ?thesis by (auto simp: basename_def)
qed

text \<open>
  Claim C6. The output file name of a URL is what joining with \<^verbatim>\<open>_\<close> the last four
  of the parts gives, into which \<^verbatim>\<open>_\<close> splits the base name of the URL;
  \<^verbatim>\<open>download_reports\<close> computes the same name. For a URL that ends in
  \<^verbatim>\<open>_B_C_D_E.pdf\<close>, where \<open>B\<close>, \<open>C\<close>, \<open>D\<close> and \<open>E\<close> have no \<^verbatim>\<open>_\<close> and no slash, the
  name is \<^verbatim>\<open>B_C_D_E.pdf\<close>, whatever stands before. A base name of at most four parts
  is its own output file name.
\<close>

theorem output_file_name_last_four:
  "output_file_name url = join_with ''_'' (last_four (split_on CHR ''_'' (basename url))) \<and>
   renamed_file_name url = output_file_name url \<and>
   (CHR ''_'' \<notin> set (B @ C @ D @ E) \<and> CHR ''/'' \<notin> set (B @ C @ D @ E) \<longrightarrow>
      output_file_name (A @ ''_'' @ B @ ''_'' @ C @ ''_'' @ D @ ''_'' @ E @ ''.pdf'') =
        B @ ''_'' @ C @ ''_'' @ D @ ''_'' @ E @ ''.pdf'') \<and>
   (length (split_on CHR ''_'' (basename url)) \<le> 4 \<longrightarrow> output_file_name url = basename url)"
proof (intro conjI impI)
  show "output_file_name url = join_with ''_'' (last_four (split_on CHR ''_'' (basename url)))"
    by (simp add: output_file_name_def)
  show "renamed_file_name url = output_file_name url"
    by (simp add: output_file_name_def renamed_file_name_def)
next
  assume a: "CHR ''_'' \<notin> set (B @ C @ D @ E) \<and> CHR ''/'' \<notin> set (B @ C @ D @ E)"
  let ?tail = "B @ ''_'' @ C @ ''_'' @ D @ ''_'' @ E @ ''.pdf''"
  from a have "CHR ''/'' \<notin> set (''_'' @ ?tail)" by simp
  then have "basename (A @ ''_'' @ ?tail) = basename A @ ''_'' @ ?tail"
    by (rule basename_append)
  moreover have "split_on CHR ''_'' (basename A @ CHR ''_'' # ?tail) =
      split_on CHR ''_'' (basename A) @ split_on CHR ''_'' ?tail"
    by (rule split_on_sep_append)
  moreover have "split_on CHR ''_'' ?tail = [B, C, D, E @ ''.pdf'']"
  proof -
    have "split_on CHR ''_'' (E @ ''.pdf'') = [E @ ''.pdf'']"
      using a by (intro split_on_no_sep) simp
    moreover have "split_on CHR ''_'' (D @ CHR ''_'' # E @ ''.pdf'') =
        split_on CHR ''_'' D @ split_on CHR ''_'' (E @ ''.pdf'')"
      by (rule split_on_sep_append)
    moreover have "split_on CHR ''_'' (C @ CHR ''_'' # D @ CHR ''_'' # E @ ''.pdf'') =
        split_on CHR ''_'' C @ split_on CHR ''_'' (D @ CHR ''_'' # E @ ''.pdf'')"
      by (rule split_on_sep_append)
    moreover have "split_on CHR ''_'' (B @ CHR ''_'' # C @ CHR ''_'' # D @ CHR ''_'' # E @ ''.pdf'') =
        split_on CHR ''_'' B @ split_on CHR ''_'' (C @ CHR ''_'' # D @ CHR ''_'' # E @ ''.pdf'')"
      by (rule split_on_sep_append)
    ultimately show ?thesis using a by (simp add: split_on_no_sep)
  qed
  ultimately show "output_file_name (A @ ''_'' @ ?tail) = ?tail"
    by (simp add: output_file_name_def last_four_append)
next
  assume "length (split_on CHR ''_'' (basename url)) \<le> 4"
  then show "output_file_name url = basename url"
    using join_with_split_on [of "CHR ''_''" "basename url"]
    by (simp add: output_file_name_def last_four_short)
qed

text \<open>
  A base name of five parts and one of a single part.
\<close>

theorem output_file_name_last_four_witness:
  "output_file_name ''http://nseindia.com/reports/AR_1234_TCS_2023_2024.pdf'' = ''1234_TCS_2023_2024.pdf'' \<and>
   renamed_file_name ''http://nseindia.com/reports/AR_1234_TCS_2023_2024.pdf'' = ''1234_TCS_2023_2024.pdf'' \<and>
   output_file_name ''http://nseindia.com/r1.pdf'' = ''r1.pdf''"
  using output_file_name_last_four [of "''http://nseindia.com/r1.pdf''" "''1234''" "''TCS''" "''2023''" "''2024''"
      "''http://nseindia.com/reports/AR''"]
    output_file_name_last_four [of "''http://nseindia.com/reports/AR_1234_TCS_2023_2024.pdf''" "''1234''" "''TCS''" "''2023''" "''2024''"
      "''http://nseindia.com/reports/AR''"]
  by (simp add: basename_def last_four_def)

lemma path_join_no_slash:
  "CHR ''/'' \<notin> set b \<Longrightarrow>
   path_join a b = (if a = [] \<or> last a = CHR ''/'' then a else a @ ''/'') @ b"
  by (cases b) (auto simp: path_join_def)

lemma join_with_no_slash:
  "\<forall>x \<in> set xs. CHR ''/'' \<notin> set x \<Longrightarrow> CHR ''/'' \<notin> set (join_with ''_'' xs)"
  by (induction "''_''" xs rule: join_with.induct) auto

lemma split_on_pieces: "x \<in> set (split_on sep s) \<Longrightarrow> set x \<subseteq> set s"
proof (induction s arbitrary: x)
  case Nil
  then show ?case by simp
next
  case (Cons c s)
  obtain y ys where y: "split_on sep s = y # ys"
    using split_on_nonempty [of sep s] by (cases "split_on sep s") auto
  have "set y \<subseteq> set s" and "\<forall>z \<in> set ys. set z \<subseteq> set s"
    using Cons.IH y by auto
  with Cons.prems y show ?case
    by (auto split: if_splits)
qed

lemma output_file_name_no_slash: "CHR ''/'' \<notin> set (output_file_name url)"
proof -
  have "\<forall>x \<in> set (last_four (split_on CHR ''_'' (basename url))). CHR ''/'' \<notin> set x"
    using basename_no_slash [of url] split_on_pieces [of _ "CHR ''_''" "basename url"]
    by (auto simp: last_four_def dest!: in_set_dropD)
  then show ?thesis
    unfolding output_file_name_def by (rule join_with_no_slash)
qed

subsection \<open>The file tree\<close>

lemma fs_simps:
  "fs (w\<lparr>logged := l\<rparr>) = fs w"
  "fs (w\<lparr>sent := s\<rparr>) = fs w"
  "fs (w\<lparr>json_file := j\<rparr>) = fs w"
  "fs (w\<lparr>tree := t\<rparr>) = map_of t"
  by (simp_all add: fs_def)

lemma is_dir_fs: "is_dir w k \<longleftrightarrow> k = [] \<or> fs w k = Some Dir"
  by (simp add: is_dir_def node_of_def)

text \<open>The walk looks at the tree through its directories only.\<close>

lemma walk_cong:
  assumes "\<And>k. is_dir w' k = is_dir w k"
  shows "walk w' k cs = walk w k cs"
  by (induction cs arbitrary: k) (simp_all add: assms)

lemma resolve_cong:
  assumes "cwd w' = cwd w" and "\<And>k. is_dir w' k = is_dir w k"
  shows "resolve w' p = resolve w p" and "path_entry w' p = path_entry w p"
  using assms(1) walk_cong [of w' w, OF assms(2)]
  by (simp_all add: resolve_def path_entry_def path_start_def Let_def)

lemma walk_append:
  "walk w k (cs @ cs') = (case walk w k cs of None \<Rightarrow> None | Some k' \<Rightarrow> walk w k' cs')"
  by (induction cs arbitrary: k) simp_all

lemma walk_mono:
  assumes "\<And>k. is_dir w k \<Longrightarrow> is_dir w' k" and "walk w k cs = Some d"
  shows "walk w' k cs = Some d"
  using assms(2)
  by (induction cs arbitrary: k) (auto simp: assms(1) split: if_splits)

text \<open>\<^verbatim>\<open>os.makedirs\<close> changes the tree only, keeps every node and adds directories.\<close>

lemma mkdirs_fields:
  "logged (snd (mkdirs k cs w)) = logged w"
  "sent (snd (mkdirs k cs w)) = sent w"
  "json_file (snd (mkdirs k cs w)) = json_file w"
  "cwd (snd (mkdirs k cs w)) = cwd w"
  by (induction k cs w rule: mkdirs.induct; simp)+

lemma fs_append_Dir:
  assumes "fs w k = None"
  shows "fs (w\<lparr>tree := tree w @ [(k, Dir)]\<rparr>) = (fs w)(k \<mapsto> Dir)"
proof
  fix q
  show "fs (w\<lparr>tree := tree w @ [(k, Dir)]\<rparr>) q = ((fs w)(k \<mapsto> Dir)) q"
    using assms by (auto simp: fs_def map_add_def split: option.splits)
qed

lemma mkdirs_grows:
  "fs (snd (mkdirs k cs w)) q = fs w q \<or> (fs w q = None \<and> fs (snd (mkdirs k cs w)) q = Some Dir)"
proof (induction k cs w rule: mkdirs.induct)
  case (1 k w)
  show ?case by simp
next
  case (2 k c cs w)
  show ?case
  proof (cases "is_dir w k \<and> c \<noteq> [] \<and> c \<noteq> ''.'' \<and> c \<noteq> ''..'' \<and> node_of w (k @ [c]) = None")
    case True
    then have none: "fs w (k @ [c]) = None" by (simp add: node_of_def)
    let ?w' = "w\<lparr>tree := tree w @ [(k @ [c], Dir)]\<rparr>"
    from True have eq: "mkdirs k (c # cs) w = mkdirs (k @ [c]) cs ?w'" by simp
    from True 2(3) have ih: "fs (snd (mkdirs (k @ [c]) cs ?w')) q = fs ?w' q \<or>
        (fs ?w' q = None \<and> fs (snd (mkdirs (k @ [c]) cs ?w')) q = Some Dir)"
      by simp
    show ?thesis
      unfolding eq using ih none by (auto simp: fs_append_Dir [OF none] split: if_splits)
  next
    case False
    with 2(1,2,4) show ?thesis by (auto split: if_splits)
  qed
qed

lemma makedirs_keeps:
  assumes "makedirs name w = (r, w1)"
  shows "logged w1 = logged w" and "sent w1 = sent w" and "json_file w1 = json_file w"
    and "cwd w1 = cwd w"
    and "fs w q \<noteq> None \<Longrightarrow> fs w1 q = fs w q"
    and "fs w q = None \<Longrightarrow> fs w1 q = None \<or> fs w1 q = Some Dir"
proof -
  have w1: "w1 = snd (makedirs name w)" using assms by simp
  show "logged w1 = logged w" "sent w1 = sent w" "json_file w1 = json_file w" "cwd w1 = cwd w"
    by (simp_all add: w1 makedirs_def mkdirs_fields)
  have g: "fs w1 q = fs w q \<or> (fs w q = None \<and> fs w1 q = Some Dir)"
    using mkdirs_grows [of "path_start w name" "split_on CHR ''/'' name" w q]
    by (simp add: w1 makedirs_def)
  show "fs w1 q = fs w q" if "fs w q \<noteq> None" using g that by auto
  show "fs w1 q = None \<or> fs w1 q = Some Dir" if "fs w q = None" using g that by auto
qed

lemma makedirs_logged: "logged (snd (makedirs name w)) = logged w"
  by (simp add: makedirs_def mkdirs_fields)

lemma is_dir_logger: "is_dir (logger l m w) k = is_dir w k"
  by (simp add: is_dir_def node_of_def fs_def logger_def)

lemma node_of_logger: "node_of (logger l m w) k = node_of w k"
  by (simp add: node_of_def fs_def logger_def)

lemma mkdirs_logger:
  "mkdirs k cs (logger l m w) = (case mkdirs k cs w of (r, w1) \<Rightarrow> (r, logger l m w1))"
proof (induction k cs w rule: mkdirs.induct)
  case (1 k w)
  show ?case by (simp add: is_dir_logger)
next
  case (2 k c cs w)
  have upd: "(logger l m w)\<lparr>tree := tree (logger l m w) @ [(k @ [c], Dir)]\<rparr> =
      logger l m (w\<lparr>tree := tree w @ [(k @ [c], Dir)]\<rparr>)"
    by (simp add: logger_def)
  from 2 show ?case
    by (simp add: is_dir_logger node_of_logger upd)
qed

lemma makedirs_logger:
  "makedirs name (logger l m w) = (case makedirs name w of (r, w1) \<Rightarrow> (r, logger l m w1))"
proof -
  have "path_start (logger l m w) name = path_start w name"
    by (simp add: path_start_def logger_def)
  then show ?thesis by (simp add: makedirs_def mkdirs_logger)
qed

lemma resolve_logger:
  "resolve (logger l m w) p = resolve w p" "path_entry (logger l m w) p = path_entry w p"
proof -
  have c: "cwd (logger l m w) = cwd w" by (simp add: logger_def)
  show "resolve (logger l m w) p = resolve w p"
    using c by (rule resolve_cong) (rule is_dir_logger)
  show "path_entry (logger l m w) p = path_entry w p"
    using c by (rule resolve_cong) (rule is_dir_logger)
qed

lemma node_at_logger: "node_at (logger l m w) p = node_at w p"
  by (simp add: node_at_def resolve_logger node_of_logger cong: option.case_cong)

lemma path_exists_logger: "path_exists (logger l m w) p = path_exists w p"
  by (simp add: path_exists_def node_at_logger)

subsection \<open>One download\<close>

lemma request_Inr:
  assumes "respond e (length (sent w)) (m, u) = Inr r"
  shows "request e m u w = (Return r, w\<lparr>sent := sent w @ [(m, u)]\<rparr>)"
  using assms by (simp add: request_def)

lemma download_to_save_not_ok_eq:
  assumes "makedirs loc w = (Return (), w1)"
    and "respond e (length (sent w)) (GET, url) = Inr r"
    and "\<not> ok r"
  shows "download_to_save e url loc w =
           (Return (), w1\<lparr>logged := logged w @ [(ERROR, Could_not_download url)],
                          sent := sent w @ [(GET, url)]\<rparr>)"
proof -
  from assms(2) have "respond e (length (sent w1)) (GET, url) = Inr r"
    by (simp add: makedirs_keeps(2) [OF assms(1)])
  from request_Inr [OF this] assms(1,3) show ?thesis
    by (simp add: download_to_save_def Let_def logger_def makedirs_keeps(1,2) [OF assms(1)])
qed

lemma download_symbol_downloads:
  assumes "idx (upper e s) = Some years" and "years fy = Some url" and "url \<noteq> []"
    and "\<not> path_exists w (path_join loc (basename url))"
    and "\<not> path_exists w (path_join loc (renamed_file_name url))"
  shows "download_symbol e idx fy loc False False False s total_size w =
           (fst (download_to_save e url loc (logger INFO (Downloading (upper e s) url) w)), total_size,
            snd (download_to_save e url loc (logger INFO (Downloading (upper e s) url) w)))"
proof -
  from assms(2) have "years \<noteq> Map.empty" by auto
  with assms show ?thesis
    by (simp add: download_symbol_def Let_def split_beta)
qed

lemma ex_makedirs:
  "makedirs ''dl/2023-2024'' (ex_world (Some ex_index) []) =
     (Return (), \<lparr>json_file = Some ex_index, tree = [([''dl''], Dir), ([''dl'', ''2023-2024''], Dir)],
        cwd = [], logged = [], sent = []\<rparr>)"
  by (simp add: ex_world_def tree_defs)

text \<open>
  Claim C9. When the download folder could be made and the answer to the GET of a
  report is not OK, \<^verbatim>\<open>download_to_save\<close> returns normally after logging the error that
  the URL could not be downloaded. It has sent that one request. Every node of the
  tree is as it was, and where there was none there is still none or a directory that
  \<^verbatim>\<open>os.makedirs\<close> made: no file is written, so no temporary file either. In
  \<^verbatim>\<open>download_reports\<close> the loop then goes on with the symbols that are left.
\<close>

theorem download_to_save_not_ok:
  assumes "makedirs loc w = (Return (), w1)"
    and "respond e (length (sent w)) (GET, url) = Inr r"
    and "\<not> ok r"
  shows "fst (download_to_save e url loc w) = Return () \<and>
         logged (snd (download_to_save e url loc w)) =
           logged w @ [(ERROR, Could_not_download url)] \<and>
         sent (snd (download_to_save e url loc w)) = sent w @ [(GET, url)] \<and>
         (\<forall>p. fs w p \<noteq> None \<longrightarrow> fs (snd (download_to_save e url loc w)) p = fs w p) \<and>
         (\<forall>p. fs w p = None \<longrightarrow>
            fs (snd (download_to_save e url loc w)) p = None \<or>
            fs (snd (download_to_save e url loc w)) p = Some Dir) \<and>
         (\<forall>idx fy s rest total_size years.
            idx (upper e s) = Some years \<and> years fy = Some url \<and> url \<noteq> [] \<and>
            \<not> path_exists w (path_join loc (basename url)) \<and>
            \<not> path_exists w (path_join loc (renamed_file_name url)) \<longrightarrow>
            download_loop e idx fy loc False False False (s # rest) total_size w =
              download_loop e idx fy loc False False False rest total_size
                (snd (download_to_save e url loc (logger INFO (Downloading (upper e s) url) w))))"
proof (intro conjI allI impI)
  note eq = download_to_save_not_ok_eq [OF assms]
  show "fst (download_to_save e url loc w) = Return ()"
    and "logged (snd (download_to_save e url loc w)) = logged w @ [(ERROR, Could_not_download url)]"
    and "sent (snd (download_to_save e url loc w)) = sent w @ [(GET, url)]"
    by (simp_all add: eq)
  show "fs (snd (download_to_save e url loc w)) p = fs w p" if "fs w p \<noteq> None" for p
    using makedirs_keeps(5) [OF assms(1) that] by (simp add: eq fs_simps)
  show "fs (snd (download_to_save e url loc w)) p = None \<or>
        fs (snd (download_to_save e url loc w)) p = Some Dir" if "fs w p = None" for p
    using makedirs_keeps(6) [OF assms(1) that] by (simp add: eq fs_simps)
next
  fix fy s rest total_size and idx :: link_index and years :: links
  assume a: "idx (upper e s) = Some years \<and> years fy = Some url \<and> url \<noteq> [] \<and>
            \<not> path_exists w (path_join loc (basename url)) \<and>
            \<not> path_exists w (path_join loc (renamed_file_name url))"
  let ?w = "logger INFO (Downloading (upper e s) url) w"
  have mk: "makedirs loc ?w = (Return (), logger INFO (Downloading (upper e s) url) w1)"
    by (simp add: makedirs_logger assms(1))
  have "respond e (length (sent ?w)) (GET, url) = Inr r"
    using assms(2) by (simp add: logger_def)
  from download_to_save_not_ok_eq [OF mk this assms(3)]
  have "fst (download_to_save e url loc ?w) = Return ()" by simp
  moreover from a have "download_symbol e idx fy loc False False False s total_size w =
           (fst (download_to_save e url loc ?w), total_size, snd (download_to_save e url loc ?w))"
    by (intro download_symbol_downloads [where years = years]) simp_all
  ultimately show "download_loop e idx fy loc False False False (s # rest) total_size w =
      download_loop e idx fy loc False False False rest total_size (snd (download_to_save e url loc ?w))"
    by simp
qed

text \<open>
  An answer that is not OK, in an empty tree: the two directories are made, the
  temporary file is not there, and the loop goes on to the next symbol, which has no
  links.
\<close>

theorem download_to_save_not_ok_witness:
  "download_to_save (ex_env [''tcs''] (\<lambda>n q. Inr (ex_report False None [] None)))
     ''http://nseindia.com/a/AR_1_TCS_2023_2024.pdf'' ''dl/2023-2024''
     (ex_world (Some ex_index) []) =
   (Return (),
    \<lparr>json_file = Some ex_index,
     tree = [([''dl''], Dir), ([''dl'', ''2023-2024''], Dir)], cwd = [],
     logged = [(ERROR, Could_not_download ''http://nseindia.com/a/AR_1_TCS_2023_2024.pdf'')],
     sent = [(GET, ''http://nseindia.com/a/AR_1_TCS_2023_2024.pdf'')]\<rparr>) \<and>
   node_at (snd (download_to_save (ex_env [''tcs''] (\<lambda>n q. Inr (ex_report False None [] None)))
     ''http://nseindia.com/a/AR_1_TCS_2023_2024.pdf'' ''dl/2023-2024''
     (ex_world (Some ex_index) [])))
     ''dl/2023-2024/1_TCS_2023_2024.pdf.downloading'' = None \<and>
   download_loop (ex_env [''tcs''] (\<lambda>n q. Inr (ex_report False None [] None))) ex_index
     ''2023-2024'' ''dl/2023-2024'' False False False [''tcs'', ''infy''] 0
     (ex_world (Some ex_index) []) =
   (Return (), 0,
    \<lparr>json_file = Some ex_index,
     tree = [([''dl''], Dir), ([''dl'', ''2023-2024''], Dir)], cwd = [],
     logged = [(INFO, Downloading ''TCS'' ''http://nseindia.com/a/AR_1_TCS_2023_2024.pdf''),
       (ERROR, Could_not_download ''http://nseindia.com/a/AR_1_TCS_2023_2024.pdf''),
       (WARNING, No_links ''INFY'')],
     sent = [(GET, ''http://nseindia.com/a/AR_1_TCS_2023_2024.pdf'')]\<rparr>)"
proof -
  let ?e = "ex_env [''tcs''] (\<lambda>n q. Inr (ex_report False None [] None))"
  let ?w = "ex_world (Some ex_index) []"
  let ?url = "''http://nseindia.com/a/AR_1_TCS_2023_2024.pdf''"
  have resp: "respond ?e (length (sent ?w)) (GET, ?url) = Inr (ex_report False None [] None)"
    by (simp add: ex_defs)
  have nok: "\<not> ok (ex_report False None [] None)" by (simp add: ex_defs)
  note inst = download_to_save_not_ok [OF ex_makedirs resp nok]
  from inst have 1: "fst (download_to_save ?e ?url ''dl/2023-2024'' ?w) = Return ()" by simp
  have 3: "download_loop ?e ex_index ''2023-2024'' ''dl/2023-2024'' False False False
      [''tcs'', ''infy''] 0 ?w =
    download_loop ?e ex_index ''2023-2024'' ''dl/2023-2024'' False False False [''infy''] 0
      (snd (download_to_save ?e ?url ''dl/2023-2024'' (logger INFO (Downloading (upper ?e ''tcs'') ?url) ?w)))"
    using inst [THEN conjunct2, THEN conjunct2, THEN conjunct2, THEN conjunct2, THEN conjunct2,
        rule_format, of ex_index "''tcs''" "[''2023-2024'' \<mapsto> ?url]" "''2023-2024''" "[''infy'']" 0]
    by (simp add: ex_defs tree_defs download_defs)
  show ?thesis
    unfolding 3 using 1
    by (simp add: ex_defs download_defs tree_defs)
qed

subsection \<open>What a step of the downloader leaves alone\<close>

lemma request_keeps:
  "tree (snd (request e m u w)) = tree w"
  "cwd (snd (request e m u w)) = cwd w"
  "json_file (snd (request e m u w)) = json_file w"
  "logged (snd (request e m u w)) = logged w"
  by (simp_all add: request_def split: sum.splits)

lemma logger_keeps:
  "tree (logger l m w) = tree w"
  "cwd (logger l m w) = cwd w"
  "json_file (logger l m w) = json_file w"
  "sent (logger l m w) = sent w"
  by (simp_all add: logger_def)

lemma os_rename_keeps:
  "logged (snd (os_rename src dst w)) = logged w"
  "sent (snd (os_rename src dst w)) = sent w"
  "json_file (snd (os_rename src dst w)) = json_file w"
  "cwd (snd (os_rename src dst w)) = cwd w"
  by (simp_all add: os_rename_def split: option.splits node.splits)

lemma get_download_size_keeps:
  "tree (snd (get_download_size e url symbol w)) = tree w"
  "json_file (snd (get_download_size e url symbol w)) = json_file w"
proof -
  obtain r w1 where rq: "request e HEAD url w = (r, w1)"
    by (cases "request e HEAD url w")
  then have "tree w1 = tree w" "json_file w1 = json_file w"
    using request_keeps(1,3) [of e HEAD url w] by simp_all
  with rq show "tree (snd (get_download_size e url symbol w)) = tree w"
    and "json_file (snd (get_download_size e url symbol w)) = json_file w"
    by (auto simp: get_download_size_def logger_keeps split: outcome.splits option.splits)
qed

lemma rename_existing_file_sent:
  "sent (rename_existing_file simulate loc file_name renamed w) = sent w"
proof -
  have "sent w2 = sent w" if "os_rename src dst (logger l m w) = (r, w2)" for src dst l m r w2
    using os_rename_keeps(2) [of src dst "logger l m w"] that by (simp add: logger_keeps)
  then show ?thesis
    by (auto simp: rename_existing_file_def Let_def logger_keeps split: prod.splits outcome.splits)
qed

lemma download_symbol_simulate_keeps:
  "tree (snd (snd (download_symbol e idx fy loc True size_only rename_existing s total_size w))) = tree w \<and>
   json_file (snd (snd (download_symbol e idx fy loc True size_only rename_existing s total_size w))) =
     json_file w"
proof -
  show ?thesis
    using get_download_size_keeps [of e _ "upper e s" w]
    by (auto simp: download_symbol_def Let_def logger_keeps rename_existing_file_def split_beta
        split: option.splits outcome.splits)
qed

lemma download_loop_simulate_keeps:
  "tree (snd (snd (download_loop e idx fy loc True size_only rename_existing syms total_size w))) = tree w \<and>
   json_file (snd (snd (download_loop e idx fy loc True size_only rename_existing syms total_size w))) =
     json_file w"
proof (induction syms arbitrary: total_size w)
  case Nil
  show ?case by simp
next
  case (Cons s syms)
  obtain r t1 w1 where st: "download_symbol e idx fy loc True size_only rename_existing s total_size w = (r, t1, w1)"
    by (cases "download_symbol e idx fy loc True size_only rename_existing s total_size w")
  with download_symbol_simulate_keeps [of e idx fy loc size_only rename_existing s total_size w]
  have k: "tree w1 = tree w" "json_file w1 = json_file w" by simp_all
  show ?case
  proof (cases r)
    case (Raise x)
    with st k show ?thesis by simp
  next
    case (Return u)
    with st k Cons.IH [of t1 w1] show ?thesis by simp
  qed
qed

lemma read_json_keeps:
  "tree (snd (read_json w)) = tree w" "json_file (snd (read_json w)) = json_file w"
  by (simp_all add: read_json_def Let_def logger_def split: option.splits)

lemma read_symbol_file_keeps:
  "tree (snd (read_symbol_file e f w)) = tree w" "json_file (snd (read_symbol_file e f w)) = json_file w"
  by (simp_all add: read_symbol_file_def Let_def logger_def split: option.splits)

lemma download_reports_simulate_keeps:
  "tree (snd (download_reports e f fy base True size_only rename_existing offset w)) = tree w \<and>
   json_file (snd (download_reports e f fy base True size_only rename_existing offset w)) = json_file w"
proof -
  let ?w2 = "snd (read_symbol_file e f (snd (read_json w)))"
  let ?l = "download_loop e (fst (read_json w)) fy (path_join base fy) True size_only rename_existing
      (slice_from offset (fst (read_symbol_file e f (snd (read_json w))))) 0 ?w2"
  have "tree (snd (snd ?l)) = tree ?w2 \<and> json_file (snd (snd ?l)) = json_file ?w2"
    by (rule download_loop_simulate_keeps)
  then have "tree (snd (snd ?l)) = tree w \<and> json_file (snd (snd ?l)) = json_file w"
    by (simp add: read_json_keeps read_symbol_file_keeps)
  then show ?thesis
    by (auto simp: download_reports_def Let_def split_beta logger_keeps split: outcome.splits)
qed

text \<open>
  Claim C7, amended. For a symbol with a URL for the requested year whose file exists
  under the original base name or under the output file name, the step of the
  downloader sends no request, in every mode. When \<^verbatim>\<open>rename_existing\<close> is off, the
  step changes nothing but the log, to which it adds that the file already exists
  (under the output file name when that one exists, under the base name otherwise).
\<close>

theorem download_symbol_already_exists:
  assumes "idx (upper e s) = Some years" and "years fy = Some url" and "url \<noteq> []"
    and "path_exists w (path_join loc (basename url)) \<or>
         path_exists w (path_join loc (renamed_file_name url))"
  shows "sent (snd (snd (download_symbol e idx fy loc simulate size_only rename_existing s
            total_size w))) = sent w \<and>
         (\<not> rename_existing \<longrightarrow>
            download_symbol e idx fy loc simulate size_only rename_existing s total_size w =
              (Return (), total_size,
               w\<lparr>logged := logged w @
                  [(DEBUG, Already_exists (upper e s)
                     (if path_exists w (path_join loc (renamed_file_name url))
                      then renamed_file_name url else basename url))]\<rparr>))"
proof -
  from assms(2) have "years \<noteq> Map.empty" by auto
  with assms show ?thesis
    by (auto simp: download_symbol_def Let_def rename_existing_file_sent logger_def)
qed

text \<open>
  The file is there under its original name.
\<close>

theorem download_symbol_already_exists_witness:
  "download_symbol (ex_env [''tcs''] (\<lambda>n q. Inl (RequestError ''unreachable''))) ex_index
     ''2023-2024'' ''dl/2023-2024'' False False False ''tcs'' 0
     (ex_world (Some ex_index)
        [([''dl''], Dir), ([''dl'', ''2023-2024''], Dir),
         ([''dl'', ''2023-2024'', ''AR_1_TCS_2023_2024.pdf''], File ''pdf'' None)]) =
   (Return (), 0,
    \<lparr>json_file = Some ex_index,
     tree = [([''dl''], Dir), ([''dl'', ''2023-2024''], Dir),
             ([''dl'', ''2023-2024'', ''AR_1_TCS_2023_2024.pdf''], File ''pdf'' None)],
     cwd = [],
     logged = [(DEBUG, Already_exists ''TCS'' ''AR_1_TCS_2023_2024.pdf'')], sent = []\<rparr>)"
  using download_symbol_already_exists
    [of ex_index "ex_env [''tcs''] (\<lambda>n q. Inl (RequestError ''unreachable''))" "''tcs''"
      "[''2023-2024'' \<mapsto> ''http://nseindia.com/a/AR_1_TCS_2023_2024.pdf'']"
      "''2023-2024''" "''http://nseindia.com/a/AR_1_TCS_2023_2024.pdf''"
      "ex_world (Some ex_index)
        [([''dl''], Dir), ([''dl'', ''2023-2024''], Dir),
         ([''dl'', ''2023-2024'', ''AR_1_TCS_2023_2024.pdf''], File ''pdf'' None)]"
      "''dl/2023-2024''" False False False 0]
  by (simp add: ex_defs tree_defs path_join_def basename_def renamed_file_name_def last_four_def)

text \<open>
  Claim C7 as it is stated does not hold with \<^verbatim>\<open>rename_existing\<close>: the file that is
  there under its original name is renamed, and the log says so and does not say that
  the file already exists.
\<close>

theorem download_reports_rename_counterexample:
  "path_exists
     (ex_world (Some ex_index)
        [([''dl''], Dir), ([''dl'', ''2023-2024''], Dir),
         ([''dl'', ''2023-2024'', ''AR_1_TCS_2023_2024.pdf''], File ''pdf'' None)])
     (path_join (path_join ''dl'' ''2023-2024'')
        (basename ''http://nseindia.com/a/AR_1_TCS_2023_2024.pdf'')) \<and>
   download_reports (ex_env [''tcs''] (\<lambda>n q. Inl (RequestError ''unreachable'')))
     ''download_symbols.txt'' ''2023-2024'' ''dl'' False False True 0
     (ex_world (Some ex_index)
        [([''dl''], Dir), ([''dl'', ''2023-2024''], Dir),
         ([''dl'', ''2023-2024'', ''AR_1_TCS_2023_2024.pdf''], File ''pdf'' None)]) =
   (Return (),
    \<lparr>json_file = Some ex_index,
     tree = [([''dl''], Dir), ([''dl'', ''2023-2024''], Dir),
             ([''dl'', ''2023-2024'', ''1_TCS_2023_2024.pdf''], File ''pdf'' None)],
     cwd = [],
     logged = [(DEBUG, Reading_json), (DEBUG, Reading_symbol_file),
       (INFO, Renamed_to ''AR_1_TCS_2023_2024.pdf'' ''1_TCS_2023_2024.pdf''),
       (INFO, Downloading_finished)],
     sent = []\<rparr>)"
  by (simp add: ex_defs download_defs tree_defs)

end
